theory Spec2Isabelle
  imports Main "HOL-Library.AList"
begin

section \<open>The file-backed game store \<open>LocalFilesystem\<close>\<close>

text \<open>
  A shallow embedding of the class \<open>LocalFilesystem\<close>: the store that keeps the
  current snapshot of every game in \<open>{dbFolder}/{gameId}.json\<close> and every save in
  \<open>{dbFolder}/history/{gameId}-{saveId}.json\<close>.

  Conventions of the model.
  \<^item> Strings are \<open>string\<close> (lists of 8-bit characters); file names and identifiers are
    taken to be ASCII.
  \<^item> A JavaScript \<open>number\<close> is a natural number (save ids are counters that start at 0
    and are incremented by one; the model is exact below \<open>2^53\<close>, where the arithmetic of
    doubles is exact) or another value, which is represented by its \<open>toString()\<close>
    rendering.
  \<^item> A thrown exception or a rejected promise is an \<open>error\<close> value; a method that can
    fail after it has changed the disk returns the disk it leaves behind together with the
    error.
  \<^item> The disk is a table from absolute, normalised paths (lists of segments) to nodes; the
    order of the table is the order in which a directory is enumerated. Symbolic links,
    permissions and path components that are regular files are outside the model.
  \<^item> What the class takes from other modules (\<open>isGameId\<close> of \<open>common/Types\<close>,
    \<open>Game.serialize\<close>) and the JavaScript built-ins \<open>JSON.stringify\<close>, \<open>JSON.parse\<close> and
    \<open>Number\<close> (on strings that are not decimal numerals) are parameters, collected in the
    record \<open>env\<close>.
  \<^item> What \<open>JSON.parse\<close> returns is a JSON value of any shape: the class gives it the
    type \<open>SerializedGame\<close> without looking at it, and reads its properties as JavaScript
    does.
\<close>

subsection \<open>JavaScript strings and numbers\<close>

datatype number = NatNum nat | OtherNum string

definition digit_char :: "nat \<Rightarrow> char" where
  "digit_char d = ''0123456789'' ! d"

text \<open>\<open>Number.prototype.toString\<close> on a natural number: its decimal numeral.\<close>

fun nat_toString :: "nat \<Rightarrow> string" where
  "nat_toString n =
     (if n < 10 then [digit_char n] else nat_toString (n div 10) @ [digit_char (n mod 10)])"

declare nat_toString.simps [simp del]

fun toString :: "number \<Rightarrow> string" where
  "toString (NatNum n) = nat_toString n"
| "toString (OtherNum r) = r"

text \<open>\<open>s.padStart(w, c)\<close> for a one-character filler \<open>c\<close>.\<close>

definition padStart :: "nat \<Rightarrow> char \<Rightarrow> string \<Rightarrow> string" where
  "padStart w c s = replicate (w - length s) c @ s"

text \<open>\<open>s.startsWith(p)\<close>.\<close>

definition startsWith :: "string \<Rightarrow> string \<Rightarrow> bool" where
  "startsWith s p = (take (length p) s = p)"

definition is_digit :: "char \<Rightarrow> bool" where
  "is_digit c = (c \<in> set ''0123456789'')"

definition digit_val :: "char \<Rightarrow> nat" where
  "digit_val c = of_char c - 48"

definition decimal :: "string \<Rightarrow> nat" where
  "decimal s = foldl (\<lambda>a c. 10 * a + digit_val c) 0 s"

text \<open>
  The comparison \<open>a < b\<close> of two JavaScript strings: lexicographic, by character code.
\<close>

fun str_less :: "string \<Rightarrow> string \<Rightarrow> bool" where
  "str_less [] [] = False"
| "str_less [] (y # ys) = True"
| "str_less (x # xs) [] = False"
| "str_less (x # xs) (y # ys) =
     (if x = y then str_less xs ys else (of_char x :: nat) < of_char y)"

subsection \<open>The two regular expressions\<close>

text \<open>
  \<open>.\<close> matches every character but a line terminator. \<open>dot_star k s\<close> is the greedy
  \<open>(.*)\<close> followed by the rest of the pattern \<open>k\<close>: it tries the longest run first and
  gives characters back one at a time, as a backtracking matcher does. It returns the
  captured group and what \<open>k\<close> captured.
\<close>

definition is_dot :: "char \<Rightarrow> bool" where
  "is_dot c = (c \<noteq> CHR 0x0A \<and> c \<noteq> CHR 0x0D)"

fun dot_star :: "(string \<Rightarrow> 'a option) \<Rightarrow> string \<Rightarrow> (string \<times> 'a) option" where
  "dot_star k [] = map_option (Pair []) (k [])"
| "dot_star k (c # cs) =
     (case (if is_dot c then dot_star k cs else None) of
        Some (g, r) \<Rightarrow> Some (c # g, r)
      | None \<Rightarrow> map_option (Pair []) (k (c # cs)))"

text \<open>The tail \<open>.json\<close> of both patterns: any one character, then \<open>json\<close>.\<close>

definition dot_json :: "string \<Rightarrow> unit option" where
  "dot_json s =
     (case s of [] \<Rightarrow> None
      | d # r \<Rightarrow> if is_dot d \<and> take 4 r = ''json'' then Some () else None)"

text \<open>A pattern without anchors matches at the leftmost position where it can.\<close>

fun search :: "(string \<Rightarrow> 'a option) \<Rightarrow> string \<Rightarrow> 'a option" where
  "search m [] = m []"
| "search m (c # cs) = (case m (c # cs) of Some r \<Rightarrow> Some r | None \<Rightarrow> search m cs)"

text \<open>\<open>name.match(/(.*).json/)\<close>: the first group, or \<open>None\<close> for \<open>null\<close>.\<close>

definition match_json :: "string \<Rightarrow> string option" where
  "match_json name = map_option fst (search (dot_star dot_json) name)"

text \<open>\<open>name.match(/(.*)-(.*).json/)\<close>: the two groups, or \<open>None\<close> for \<open>null\<close>.\<close>

definition dash_then :: "string \<Rightarrow> (string \<times> unit) option" where
  "dash_then s =
     (case s of [] \<Rightarrow> None
      | c # r \<Rightarrow> if c = CHR ''-'' then dot_star dot_json r else None)"

definition match_history :: "string \<Rightarrow> (string \<times> string) option" where
  "match_history name =
     map_option (\<lambda>(g1, g2, u). (g1, g2)) (search (dot_star dash_then) name)"

subsection \<open>\<open>path.resolve\<close> (POSIX)\<close>

fun split_on :: "char \<Rightarrow> string \<Rightarrow> string list" where
  "split_on c [] = [[]]"
| "split_on c (x # xs) =
     (if x = c then [] # split_on c xs
      else (case split_on c xs of [] \<Rightarrow> [[x]] | s # ss \<Rightarrow> (x # s) # ss))"

text \<open>
  The arguments are taken from the last to the first, each put in front of the path,
  until one of them is absolute; the working directory comes after the first argument.
\<close>

fun prepend_until_abs :: "string list \<Rightarrow> string \<Rightarrow> string" where
  "prepend_until_abs [] acc = acc"
| "prepend_until_abs (p # ps) acc =
     (if p = [] then prepend_until_abs ps acc
      else if hd p = CHR ''/'' then p @ ''/'' @ acc
      else prepend_until_abs ps (p @ ''/'' @ acc))"

text \<open>
  Normalisation of an absolute path: empty segments and \<open>.\<close> are dropped, \<open>..\<close> drops
  the segment before it (and nothing at the root). The first argument is the stack of
  segments kept so far, the last one first.
\<close>

fun normalize :: "string list \<Rightarrow> string list \<Rightarrow> string list" where
  "normalize acc [] = rev acc"
| "normalize acc (s # ss) =
     (if s = [] \<or> s = ''.'' then normalize acc ss
      else if s = ''..'' then normalize (case acc of [] \<Rightarrow> [] | a # as \<Rightarrow> as) ss
      else normalize (s # acc) ss)"

fun join :: "string list \<Rightarrow> string" where
  "join [] = []"
| "join [s] = s"
| "join (s # t # ss) = s @ ''/'' @ join (t # ss)"

definition segments :: "string \<Rightarrow> string list \<Rightarrow> string list" where
  "segments wd args = normalize [] (split_on CHR ''/'' (prepend_until_abs (rev args @ [wd]) []))"

definition path_resolve :: "string \<Rightarrow> string list \<Rightarrow> string" where
  "path_resolve wd args = ''/'' @ join (segments wd args)"

subsection \<open>The disk and the functions of \<open>fs\<close>\<close>

datatype node = File string | Dir

datatype error =
  ENOENT | EISDIR | ENOTDIR | EEXIST | SyntaxError | TypeError | Error string

record filesystem =
  cwd :: string
  nodes :: "(string list \<times> node) list"

record dirent =
  d_name :: string
  d_isFile :: bool

definition node_at :: "filesystem \<Rightarrow> string list \<Rightarrow> node option" where
  "node_at fs k = (if k = [] then Some Dir else map_of (nodes fs) k)"

definition lookup :: "filesystem \<Rightarrow> string \<Rightarrow> node option" where
  "lookup fs p = node_at fs (segments (cwd fs) [p])"

definition existsSync :: "filesystem \<Rightarrow> string \<Rightarrow> bool" where
  "existsSync fs p = (lookup fs p \<noteq> None)"

definition readFileSync :: "filesystem \<Rightarrow> string \<Rightarrow> error + string" where
  "readFileSync fs p =
     (case lookup fs p of
        None \<Rightarrow> Inl ENOENT
      | Some Dir \<Rightarrow> Inl EISDIR
      | Some (File text) \<Rightarrow> Inr text)"

text \<open>Creating or replacing the node at \<open>k\<close>; the directory above must exist.\<close>

definition put_node :: "filesystem \<Rightarrow> string list \<Rightarrow> node \<Rightarrow> error + filesystem" where
  "put_node fs k n =
     (case node_at fs (butlast k) of
        None \<Rightarrow> Inl ENOENT
      | Some (File t) \<Rightarrow> Inl ENOTDIR
      | Some Dir \<Rightarrow> Inr (fs\<lparr>nodes := AList.update k n (nodes fs)\<rparr>))"

definition writeFileSync :: "filesystem \<Rightarrow> string \<Rightarrow> string \<Rightarrow> error + filesystem" where
  "writeFileSync fs p text =
     (let k = segments (cwd fs) [p] in
      case node_at fs k of
        Some Dir \<Rightarrow> Inl EISDIR
      | _ \<Rightarrow> put_node fs k (File text))"

text \<open>
  A path at which \<open>writeFileSync\<close> succeeds: the directory above it exists and the path
  itself is not a directory.
\<close>

definition writable :: "filesystem \<Rightarrow> string \<Rightarrow> bool" where
  "writable fs p =
     (let k = segments (cwd fs) [p]
      in node_at fs k \<noteq> Some Dir \<and> node_at fs (butlast k) = Some Dir)"

definition mkdirSync :: "filesystem \<Rightarrow> string \<Rightarrow> error + filesystem" where
  "mkdirSync fs p =
     (let k = segments (cwd fs) [p] in
      case node_at fs k of
        Some n \<Rightarrow> Inl EEXIST
      | None \<Rightarrow> put_node fs k Dir)"

definition unlinkSync :: "filesystem \<Rightarrow> string \<Rightarrow> error + filesystem" where
  "unlinkSync fs p =
     (let k = segments (cwd fs) [p] in
      case node_at fs k of
        None \<Rightarrow> Inl ENOENT
      | Some Dir \<Rightarrow> Inl EISDIR
      | Some (File t) \<Rightarrow> Inr (fs\<lparr>nodes := AList.delete k (nodes fs)\<rparr>))"

text \<open>
  \<open>copyFileSync(src, dest)\<close> opens the source, then opens the destination for writing
  (creating it), empties it and copies. A directory as source can be opened but not read:
  the copy then fails after the destination was opened, and the destination is removed.
\<close>

definition copyFileSync ::
  "filesystem \<Rightarrow> string \<Rightarrow> string \<Rightarrow> filesystem \<times> error option" where
  "copyFileSync fs src dest =
     (case lookup fs src of
        None \<Rightarrow> (fs, Some ENOENT)
      | Some (File body) \<Rightarrow>
          (case writeFileSync fs dest body of
             Inl e \<Rightarrow> (fs, Some e)
           | Inr fs' \<Rightarrow> (fs', None))
      | Some Dir \<Rightarrow>
          (case writeFileSync fs dest [] of
             Inl e \<Rightarrow> (fs, Some e)
           | Inr fs' \<Rightarrow>
               (case unlinkSync fs' dest of
                  Inl e \<Rightarrow> (fs', Some EISDIR)
                | Inr fs'' \<Rightarrow> (fs'', Some EISDIR))))"

definition is_file :: "node \<Rightarrow> bool" where
  "is_file n = (case n of File t \<Rightarrow> True | Dir \<Rightarrow> False)"

text \<open>\<open>readdirSync(p, {withFileTypes: true})\<close>: the nodes directly below \<open>p\<close>.\<close>

definition readdirSync :: "filesystem \<Rightarrow> string \<Rightarrow> error + dirent list" where
  "readdirSync fs p =
     (let k = segments (cwd fs) [p] in
      case node_at fs k of
        None \<Rightarrow> Inl ENOENT
      | Some (File t) \<Rightarrow> Inl ENOTDIR
      | Some Dir \<Rightarrow>
          Inr (map (\<lambda>(q, n). \<lparr>d_name = last q, d_isFile = is_file n\<rparr>)
                 (filter (\<lambda>(q, n). q \<noteq> [] \<and> butlast q = k) (nodes fs))))"

subsection \<open>Games, serialized games and the collaborators of the class\<close>

text \<open>
  Modelled from the spec: the types \<open>SerializedGame\<close> and \<open>SerializedPlayer\<close>
  (\<open>SerializedGame.ts\<close>), \<open>Game\<close> (\<open>Game.ts\<close>) and \<open>GameIdLedger\<close> (\<open>IDatabase.ts\<close>) are
  declared in other modules. A serialized game has the id and the save counter of the game,
  the list of its players, each with an id, and an optional spectator id; a ledger entry has
  a game id and the ids of the participants. The record \<open>SerializedGame\<close> is what
  \<open>Game.serialize\<close> hands to the class. What the class reads back from a file is a JSON
  value, below.
\<close>

record SerializedPlayer =
  sp_id :: string

record SerializedGame =
  sg_id :: string
  sg_lastSaveId :: nat
  sg_players :: "SerializedPlayer list"
  sg_spectatorId :: "string option"

text \<open>
  A live game: its id, its save counter and the rest of the engine's state, which the
  store never looks at.
\<close>

record 'r Game =
  g_id :: string
  g_lastSaveId :: nat
  g_rest :: 'r

text \<open>
  The values of \<open>JSON.parse\<close>. An object is the list of its properties. A JavaScript
  value that may be \<open>undefined\<close> is a \<open>json option\<close>, with \<open>None\<close> for \<open>undefined\<close>.
\<close>

datatype json =
  JNull | JBool bool | JNum number | JStr string | JArr "json list"
  | JObj "(string \<times> json) list"

text \<open>
  \<open>v.name\<close> for a value \<open>v\<close> that is not \<open>null\<close> and a property \<open>name\<close> that the class
  reads (\<open>players\<close>, \<open>length\<close>, \<open>id\<close>, \<open>spectatorId\<close>; none of them is an index or a
  property of a prototype): the property of an object, the length of an array or of a
  string, and \<open>undefined\<close> otherwise.
\<close>

fun own_prop :: "json \<Rightarrow> string \<Rightarrow> json option" where
  "own_prop (JObj kvs) name = map_of kvs name"
| "own_prop (JArr xs) name =
     (if name = ''length'' then Some (JNum (NatNum (length xs))) else None)"
| "own_prop (JStr s) name =
     (if name = ''length'' then Some (JNum (NatNum (length s))) else None)"
| "own_prop (JNum n) name = None"
| "own_prop (JBool b) name = None"
| "own_prop JNull name = None"

text \<open>Reading a property of \<open>undefined\<close> or of \<open>null\<close> throws a \<open>TypeError\<close>.\<close>

definition get_prop :: "json option \<Rightarrow> string \<Rightarrow> error + json option" where
  "get_prop v name =
     (case v of
        None \<Rightarrow> Inl TypeError
      | Some JNull \<Rightarrow> Inl TypeError
      | Some x \<Rightarrow> Inr (own_prop x name))"

text \<open>
  The values that count as true in \<open>if (v)\<close>: all but \<open>undefined\<close>, \<open>null\<close>, \<open>false\<close>,
  zero and the empty string.
\<close>

definition truthy :: "json option \<Rightarrow> bool" where
  "truthy v =
     (case v of
        None \<Rightarrow> False
      | Some JNull \<Rightarrow> False
      | Some (JBool b) \<Rightarrow> b
      | Some (JNum n) \<Rightarrow> toString n \<noteq> ''0''
      | Some (JStr s) \<Rightarrow> s \<noteq> []
      | Some (JArr xs) \<Rightarrow> True
      | Some (JObj kvs) \<Rightarrow> True)"

record GameIdLedger =
  ledger_gameId :: string
  ledger_participantIds :: "json option list"

text \<open>
  The parameters of the model. \<open>JSON_parse\<close> is \<open>JSON.parse\<close>; \<open>None\<close> is the
  \<open>SyntaxError\<close> that it throws on a text that is not JSON. \<open>Number_other\<close> is \<open>Number\<close>
  on the strings that are not decimal numerals.
\<close>

record 'r env =
  isGameId :: "string \<Rightarrow> bool"
  serialize :: "'r Game \<Rightarrow> error + SerializedGame"
  JSON_stringify :: "SerializedGame \<Rightarrow> string"
  JSON_parse :: "string \<Rightarrow> json option"
  Number_other :: "string \<Rightarrow> number"

text \<open>\<open>Number(s)\<close> for a string \<open>s\<close>.\<close>

definition Number :: "'r env \<Rightarrow> string \<Rightarrow> number" where
  "Number E s =
     (if s \<noteq> [] \<and> list_all is_digit s then NatNum (decimal s) else Number_other E s)"

subsection \<open>The class \<open>LocalFilesystem\<close>\<close>

record LocalFilesystem =
  dbFolder :: string
  historyFolder :: string

definition defaultDbFolder :: "string \<Rightarrow> string" where
  "defaultDbFolder wd = path_resolve wd [wd, ''./db/files'']"

text \<open>The constructor, in a process whose working directory is \<open>wd\<close>.\<close>

definition new_LocalFilesystem :: "string \<Rightarrow> string \<Rightarrow> LocalFilesystem" where
  "new_LocalFilesystem wd folder =
     \<lparr>dbFolder = folder, historyFolder = path_resolve wd [folder, ''history'']\<rparr>"

definition initialize :: "LocalFilesystem \<Rightarrow> filesystem \<Rightarrow> filesystem \<times> error option" where
  "initialize L fs =
     (case (if \<not> existsSync fs (dbFolder L) then mkdirSync fs (dbFolder L) else Inr fs) of
        Inl e \<Rightarrow> (fs, Some e)
      | Inr fs1 \<Rightarrow>
          (case (if \<not> existsSync fs1 (historyFolder L) then mkdirSync fs1 (historyFolder L)
                 else Inr fs1) of
             Inl e \<Rightarrow> (fs1, Some e)
           | Inr fs2 \<Rightarrow> (fs2, None)))"

definition filename :: "string \<Rightarrow> LocalFilesystem \<Rightarrow> string \<Rightarrow> string" where
  "filename wd L gameId = path_resolve wd [dbFolder L, gameId @ ''.json'']"

definition historyFilename :: "string \<Rightarrow> LocalFilesystem \<Rightarrow> string \<Rightarrow> number \<Rightarrow> string" where
  "historyFilename wd L gameId saveId =
     (let saveIdString = padStart 5 CHR ''0'' (toString saveId)
      in path_resolve wd [historyFolder L, gameId @ ''-'' @ saveIdString @ ''.json''])"

text \<open>
  \<open>saveSerializedGame\<close> writes the snapshot, then the history entry. When the second
  write fails the first one has already happened.
\<close>

definition saveSerializedGame ::
  "'r env \<Rightarrow> LocalFilesystem \<Rightarrow> filesystem \<Rightarrow> SerializedGame \<Rightarrow> filesystem \<times> error option" where
  "saveSerializedGame E L fs serializedGame =
     (let text = JSON_stringify E serializedGame in
      case writeFileSync fs (filename (cwd fs) L (sg_id serializedGame)) text of
        Inl e \<Rightarrow> (fs, Some e)
      | Inr fs1 \<Rightarrow>
          (case writeFileSync fs1
                  (historyFilename (cwd fs1) L (sg_id serializedGame)
                     (NatNum (sg_lastSaveId serializedGame))) text of
             Inl e \<Rightarrow> (fs1, Some e)
           | Inr fs2 \<Rightarrow> (fs2, None)))"

text \<open>
  \<open>saveGame\<close> returns the disk, the caller's game object and the error, if any.
  \<open>game.lastSaveId++\<close> is the statement after the call of \<open>saveSerializedGame\<close>.
\<close>

definition saveGame ::
  "'r env \<Rightarrow> LocalFilesystem \<Rightarrow> filesystem \<Rightarrow> 'r Game \<Rightarrow> filesystem \<times> 'r Game \<times> error option" where
  "saveGame E L fs game =
     (case serialize E game of
        Inl e \<Rightarrow> (fs, game, Some e)
      | Inr serializedGame \<Rightarrow>
          (case saveSerializedGame E L fs serializedGame of
             (fs', Some e) \<Rightarrow> (fs', game, Some e)
           | (fs', None) \<Rightarrow> (fs', game\<lparr>g_lastSaveId := g_lastSaveId game + 1\<rparr>, None)))"

text \<open>
  \<open>getGame\<close> throws again whatever \<open>readFileSync\<close> or \<open>JSON.parse\<close> threw, and resolves
  with whatever \<open>JSON.parse\<close> returned.
\<close>

definition getGame ::
  "'r env \<Rightarrow> LocalFilesystem \<Rightarrow> filesystem \<Rightarrow> string \<Rightarrow> error + json" where
  "getGame E L fs game_id =
     (case readFileSync fs (filename (cwd fs) L game_id) of
        Inl e \<Rightarrow> Inl e
      | Inr text \<Rightarrow>
          (case JSON_parse E text of
             None \<Rightarrow> Inl SyntaxError
           | Some serializedGame \<Rightarrow> Inr serializedGame))"

text \<open>\<open>getGameVersion\<close> catches everything and rejects with one message.\<close>

definition getGameVersion ::
  "'r env \<Rightarrow> LocalFilesystem \<Rightarrow> filesystem \<Rightarrow> string \<Rightarrow> nat \<Rightarrow> error + json" where
  "getGameVersion E L fs gameId saveId =
     (case (case readFileSync fs (historyFilename (cwd fs) L gameId (NatNum saveId)) of
              Inl e \<Rightarrow> Inl e
            | Inr text \<Rightarrow>
                (case JSON_parse E text of
                   None \<Rightarrow> Inl SyntaxError
                 | Some serializedGame \<Rightarrow> Inr serializedGame)) of
        Inl e \<Rightarrow>
          Inl (Error (''Game '' @ gameId @ '' not found at save_id '' @ nat_toString saveId))
      | Inr serializedGame \<Rightarrow> Inr serializedGame)"

definition loadCloneableGame ::
  "'r env \<Rightarrow> LocalFilesystem \<Rightarrow> filesystem \<Rightarrow> string \<Rightarrow> error + json" where
  "loadCloneableGame E L fs gameId = getGameVersion E L fs gameId 0"

definition asGameId :: "'r env \<Rightarrow> dirent \<Rightarrow> string option" where
  "asGameId E d =
     (if \<not> d_isFile d then None
      else (case match_json (d_name d) of
              None \<Rightarrow> None
            | Some g1 \<Rightarrow> if isGameId E g1 then Some g1 else None))"

definition getGameIds :: "'r env \<Rightarrow> LocalFilesystem \<Rightarrow> filesystem \<Rightarrow> error + string list" where
  "getGameIds E L fs =
     (case readdirSync fs (dbFolder L) of
        Inl e \<Rightarrow> Inl e
      | Inr entries \<Rightarrow> Inr (List.map_filter (asGameId E) entries))"

text \<open>The loop of \<open>getSaveIds\<close> over the entries of the history folder.\<close>

fun saveIds_loop :: "'r env \<Rightarrow> string \<Rightarrow> dirent list \<Rightarrow> number list" where
  "saveIds_loop E gameId [] = []"
| "saveIds_loop E gameId (d # ds) =
     (if startsWith (d_name d) (gameId @ ''-'') \<and> d_isFile d then
        (case match_history (d_name d) of
           None \<Rightarrow> saveIds_loop E gameId ds
         | Some (g1, saveIdAsString) \<Rightarrow> Number E saveIdAsString # saveIds_loop E gameId ds)
      else saveIds_loop E gameId ds)"

definition getSaveIds ::
  "'r env \<Rightarrow> LocalFilesystem \<Rightarrow> filesystem \<Rightarrow> string \<Rightarrow> error + number list" where
  "getSaveIds E L fs gameId =
     (case readdirSync fs (historyFolder L) of
        Inl e \<Rightarrow> Inl e
      | Inr entries \<Rightarrow> Inr (saveIds_loop E gameId entries))"

text \<open>
  \<open>getPlayerCount\<close> returns \<open>serializedGame.players.length\<close>, whatever that is.
\<close>

definition getPlayerCount ::
  "'r env \<Rightarrow> LocalFilesystem \<Rightarrow> filesystem \<Rightarrow> string \<Rightarrow> error + json option" where
  "getPlayerCount E L fs gameId =
     (case getGameIds E L fs of
        Inl e \<Rightarrow> Inl e
      | Inr gameIds \<Rightarrow>
          (case find (\<lambda>gId. gId = gameId
                        \<and> existsSync fs (historyFilename (cwd fs) L gameId (NatNum 0))) gameIds of
             None \<Rightarrow> Inl (Error (gameId @ '' not found''))
           | Some found \<Rightarrow>
               (case readFileSync fs (historyFilename (cwd fs) L gameId (NatNum 0)) of
                  Inl e \<Rightarrow> Inl e
                | Inr text \<Rightarrow>
                    (case JSON_parse E text of
                       None \<Rightarrow> Inl SyntaxError
                     | Some serializedGame \<Rightarrow>
                         (case get_prop (Some serializedGame) ''players'' of
                            Inl e \<Rightarrow> Inl e
                          | Inr players \<Rightarrow> get_prop players ''length'')))))"

text \<open>\<open>players.map((p) => p.id)\<close> on the elements of an array.\<close>

fun map_ids :: "json list \<Rightarrow> error + json option list" where
  "map_ids [] = Inr []"
| "map_ids (p # ps) =
     (case get_prop (Some p) ''id'' of
        Inl e \<Rightarrow> Inl e
      | Inr i \<Rightarrow> (case map_ids ps of Inl e \<Rightarrow> Inl e | Inr ids \<Rightarrow> Inr (i # ids)))"

text \<open>
  The participant ids of a parsed snapshot: \<open>game.players.map((p) => p.id)\<close>, then
  \<open>game.spectatorId\<close> if it is truthy. Only an array has the method \<open>map\<close>.
\<close>

definition participantIds_of :: "json \<Rightarrow> error + json option list" where
  "participantIds_of game =
     (case get_prop (Some game) ''players'' of
        Inl e \<Rightarrow> Inl e
      | Inr players \<Rightarrow>
          (case players of
             Some (JArr ps) \<Rightarrow>
               (case map_ids ps of
                  Inl e \<Rightarrow> Inl e
                | Inr participantIds \<Rightarrow>
                    (case get_prop (Some game) ''spectatorId'' of
                       Inl e \<Rightarrow> Inl e
                     | Inr spectatorId \<Rightarrow>
                         Inr (if truthy spectatorId then participantIds @ [spectatorId]
                              else participantIds)))
           | _ \<Rightarrow> Inl TypeError))"

text \<open>The \<open>forEach\<close> of \<open>getParticipants\<close>; an exception ends it.\<close>

fun participants_loop ::
  "'r env \<Rightarrow> LocalFilesystem \<Rightarrow> filesystem \<Rightarrow> dirent list \<Rightarrow> error + GameIdLedger list" where
  "participants_loop E L fs [] = Inr []"
| "participants_loop E L fs (d # ds) =
     (case asGameId E d of
        None \<Rightarrow> participants_loop E L fs ds
      | Some gId \<Rightarrow>
          (case readFileSync fs (filename (cwd fs) L gId) of
             Inl e \<Rightarrow> Inl e
           | Inr text \<Rightarrow>
               (case JSON_parse E text of
                  None \<Rightarrow> Inl SyntaxError
                | Some game \<Rightarrow>
                    (case participantIds_of game of
                       Inl e \<Rightarrow> Inl e
                     | Inr participantIds \<Rightarrow>
                         (case participants_loop E L fs ds of
                            Inl e \<Rightarrow> Inl e
                          | Inr rest \<Rightarrow>
                              Inr (\<lparr>ledger_gameId = gId,
                                    ledger_participantIds = participantIds\<rparr> # rest))))))"

definition getParticipants ::
  "'r env \<Rightarrow> LocalFilesystem \<Rightarrow> filesystem \<Rightarrow> error + GameIdLedger list" where
  "getParticipants E L fs =
     (case readdirSync fs (dbFolder L) of
        Inl e \<Rightarrow> Inl e
      | Inr entries \<Rightarrow> participants_loop E L fs entries)"

definition getGameId ::
  "'r env \<Rightarrow> LocalFilesystem \<Rightarrow> filesystem \<Rightarrow> string \<Rightarrow> error + string" where
  "getGameId E L fs pid =
     (case getParticipants E L fs of
        Inl e \<Rightarrow> Inl e
      | Inr participants \<Rightarrow>
          (case find (\<lambda>entry. Some (JStr pid) \<in> set (ledger_participantIds entry))
                  participants of
             Some entry \<Rightarrow> Inr (ledger_gameId entry)
           | None \<Rightarrow> Inl (Error (''participant id '' @ pid @ '' not found''))))"

definition restoreReferenceGame :: "string \<Rightarrow> error + 'r Game" where
  "restoreReferenceGame gId = Inl (Error ''Does not work'')"

text \<open>\<open>restoreGame\<close> copies the history entry over the snapshot and reads the snapshot.\<close>

definition restoreGame ::
  "'r env \<Rightarrow> LocalFilesystem \<Rightarrow> filesystem \<Rightarrow> string \<Rightarrow> nat
     \<Rightarrow> filesystem \<times> (error + json)" where
  "restoreGame E L fs gId saveId =
     (case copyFileSync fs (historyFilename (cwd fs) L gId (NatNum saveId))
             (filename (cwd fs) L gId) of
        (fs', Some e) \<Rightarrow> (fs', Inl e)
      | (fs', None) \<Rightarrow> (fs', getGame E L fs' gId))"

definition deleteVersion ::
  "LocalFilesystem \<Rightarrow> filesystem \<Rightarrow> string \<Rightarrow> number \<Rightarrow> error + filesystem" where
  "deleteVersion L fs gId version = unlinkSync fs (historyFilename (cwd fs) L gId version)"

text \<open>The loop of \<open>deleteGameNbrSaves\<close>; the first \<open>unlinkSync\<close> that throws ends it.\<close>

fun delete_loop ::
  "LocalFilesystem \<Rightarrow> filesystem \<Rightarrow> string \<Rightarrow> number list \<Rightarrow> filesystem \<times> error option" where
  "delete_loop L fs gId [] = (fs, None)"
| "delete_loop L fs gId (version # versions) =
     (case deleteVersion L fs gId version of
        Inl e \<Rightarrow> (fs, Some e)
      | Inr fs' \<Rightarrow> delete_loop L fs' gId versions)"

text \<open>\<open>saveIds.slice(-rollbackCount)\<close> for a positive count: the last elements.\<close>

definition slice_last :: "int \<Rightarrow> 'a list \<Rightarrow> 'a list" where
  "slice_last n xs = drop (length xs - nat n) xs"

definition deleteGameNbrSaves ::
  "'r env \<Rightarrow> LocalFilesystem \<Rightarrow> filesystem \<Rightarrow> string \<Rightarrow> int \<Rightarrow> filesystem \<times> error option" where
  "deleteGameNbrSaves E L fs gId rollbackCount =
     (if rollbackCount \<le> 0 then (fs, None)
      else (case getSaveIds E L fs gId of
              Inl e \<Rightarrow> (fs, Some e)
            | Inr saveIds \<Rightarrow> delete_loop L fs gId (slice_last rollbackCount saveIds)))"

subsection \<open>A concrete store, for the examples\<close>

text \<open>
  An engine whose games carry their player ids and their spectator id, and a line format
  \<open>id;lastSaveId;player,player,;spectator\<close> that stands for the JSON text of a game:
  the examples below need a text that parses to a game, a text that does not parse, and a
  text that parses to something else. As in JSON, a decimal numeral parses to its number
  and \<open>null\<close> to \<open>null\<close>.
\<close>

definition demo_serialize :: "(string list \<times> string option) Game \<Rightarrow> error + SerializedGame" where
  "demo_serialize g =
     Inr \<lparr>sg_id = g_id g, sg_lastSaveId = g_lastSaveId g,
          sg_players = map (\<lambda>p. \<lparr>sp_id = p\<rparr>) (fst (g_rest g)),
          sg_spectatorId = snd (g_rest g)\<rparr>"

definition demo_stringify :: "SerializedGame \<Rightarrow> string" where
  "demo_stringify sg =
     sg_id sg @ '';'' @ nat_toString (sg_lastSaveId sg) @ '';''
     @ concat (map (\<lambda>p. sp_id p @ '','') (sg_players sg)) @ '';''
     @ (case sg_spectatorId sg of None \<Rightarrow> [] | Some s \<Rightarrow> s)"

text \<open>
  The JSON value of a serialized game; \<open>JSON.stringify\<close> leaves out a property that is
  \<open>undefined\<close>.
\<close>

definition demo_json :: "SerializedGame \<Rightarrow> json" where
  "demo_json sg =
     JObj ([(''id'', JStr (sg_id sg)),
            (''lastSaveId'', JNum (NatNum (sg_lastSaveId sg))),
            (''players'', JArr (map (\<lambda>p. JObj [(''id'', JStr (sp_id p))]) (sg_players sg)))]
           @ (case sg_spectatorId sg of None \<Rightarrow> [] | Some s \<Rightarrow> [(''spectatorId'', JStr s)]))"

definition demo_parse :: "string \<Rightarrow> json option" where
  "demo_parse text =
     (if text = ''null'' then Some JNull
      else if text \<noteq> [] \<and> list_all is_digit text then Some (JNum (NatNum (decimal text)))
      else (case split_on CHR '';'' text of
              [i, n, ps, sp] \<Rightarrow>
                if n \<noteq> [] \<and> list_all is_digit n then
                  Some (demo_json
                    \<lparr>sg_id = i, sg_lastSaveId = decimal n,
                     sg_players = map (\<lambda>p. \<lparr>sp_id = p\<rparr>) (butlast (split_on CHR '','' ps)),
                     sg_spectatorId = (if sp = [] then None else Some sp)\<rparr>)
                else None
            | _ \<Rightarrow> None))"

definition demo_env :: "(string list \<times> string option) env" where
  "demo_env =
     \<lparr>isGameId = (\<lambda>s. take 1 s = ''g''), serialize = demo_serialize,
      JSON_stringify = demo_stringify, JSON_parse = demo_parse,
      Number_other = (\<lambda>s. OtherNum ''NaN'')\<rparr>"

definition demo_store :: LocalFilesystem where
  "demo_store = new_LocalFilesystem ''/srv'' ''db''"

definition demo_game :: "(string list \<times> string option) Game" where
  "demo_game = \<lparr>g_id = ''g1'', g_lastSaveId = 2, g_rest = ([''p1'', ''p2''], Some ''s1'')\<rparr>"

text \<open>A disk with two games: \<open>g1\<close>, saved twice, and \<open>g5\<close>, saved once.\<close>

definition demo_disk :: filesystem where
  "demo_disk =
     \<lparr>cwd = ''/srv'',
      nodes =
        [([''srv''], Dir),
         ([''srv'', ''db''], Dir),
         ([''srv'', ''db'', ''history''], Dir),
         ([''srv'', ''db'', ''g1.json''], File ''g1;1;p1,p2,;s1''),
         ([''srv'', ''db'', ''history'', ''g1-00000.json''], File ''g1;0;p1,p2,;''),
         ([''srv'', ''db'', ''history'', ''g1-00001.json''], File ''g1;1;p1,p2,;s1''),
         ([''srv'', ''db'', ''g5.json''], File ''g5;0;p3,;''),
         ([''srv'', ''db'', ''history'', ''g5-00000.json''], File ''g5;0;p3,;'')]\<rparr>"

text \<open>
  A disk where the files of \<open>g2\<close> do not parse and where \<open>g3\<close> has its first
  history entry but no snapshot.
\<close>

definition damaged_disk :: filesystem where
  "damaged_disk =
     \<lparr>cwd = ''/srv'',
      nodes =
        [([''srv''], Dir),
         ([''srv'', ''db''], Dir),
         ([''srv'', ''db'', ''history''], Dir),
         ([''srv'', ''db'', ''g2.json''], File ''not json''),
         ([''srv'', ''db'', ''history'', ''g2-00000.json''], File ''not json''),
         ([''srv'', ''db'', ''history'', ''g3-00000.json''], File ''g3;0;p1,p2,;'')]\<rparr>"

text \<open>A disk whose only history entry belongs to the game \<open>g1-x\<close>.\<close>

definition prefix_disk :: filesystem where
  "prefix_disk =
     \<lparr>cwd = ''/srv'',
      nodes =
        [([''srv''], Dir),
         ([''srv'', ''db''], Dir),
         ([''srv'', ''db'', ''history''], Dir),
         ([''srv'', ''db'', ''g1-x.json''], File ''g1-x;0;p1,;''),
         ([''srv'', ''db'', ''history'', ''g1-x-00000.json''], File ''g1-x;0;p1,;'')]\<rparr>"

text \<open>
  A disk where the files of \<open>g4\<close> hold the JSON text of the number 42 and where a
  directory has the name of the snapshot file of \<open>g6\<close>.
\<close>

definition unchecked_disk :: filesystem where
  "unchecked_disk =
     \<lparr>cwd = ''/srv'',
      nodes =
        [([''srv''], Dir),
         ([''srv'', ''db''], Dir),
         ([''srv'', ''db'', ''history''], Dir),
         ([''srv'', ''db'', ''g4.json''], File ''42''),
         ([''srv'', ''db'', ''g6.json''], Dir),
         ([''srv'', ''db'', ''history'', ''g4-00000.json''], File ''42'')]\<rparr>"

text \<open>A disk on which the history folder was never created.\<close>

definition bare_disk :: filesystem where
  "bare_disk = \<lparr>cwd = ''/srv'', nodes = [([''srv''], Dir), ([''srv'', ''db''], Dir)]\<rparr>"

section \<open>Properties\<close>

subsection \<open>Writing to the disk\<close>

lemma cwd_put_node: "put_node fs k n = Inr fs' \<Longrightarrow> cwd fs' = cwd fs"
  by (auto simp: put_node_def split: option.splits node.splits)

lemma node_at_put_node:
  "put_node fs k n = Inr fs' \<Longrightarrow> k \<noteq> [] \<Longrightarrow>
   node_at fs' j = (if j = k then Some n else node_at fs j)"
  by (auto simp: put_node_def node_at_def update_conv' split: option.splits node.splits)

lemma writeFileSync_ok: "writable fs p \<Longrightarrow> \<exists>fs'. writeFileSync fs p body = Inr fs'"
  by (auto simp: writable_def writeFileSync_def put_node_def Let_def
           split: option.splits node.splits)

lemma writeFileSync_effect:
  assumes "writeFileSync fs p body = Inr fs'"
  shows "cwd fs' = cwd fs"
    and "node_at fs' j = (if j = segments (cwd fs) [p] then Some (File body) else node_at fs j)"
proof -
  let ?k = "segments (cwd fs) [p]"
  from assms have pn: "put_node fs ?k (File body) = Inr fs'"
    and nd: "node_at fs ?k \<noteq> Some Dir"
    by (auto simp: writeFileSync_def Let_def split: option.splits node.splits)
  from nd have ne: "?k \<noteq> []" by (auto simp: node_at_def)
  show "cwd fs' = cwd fs" using pn by (rule cwd_put_node)
  show "node_at fs' j = (if j = ?k then Some (File body) else node_at fs j)"
    using node_at_put_node [OF pn ne] .
qed

lemma writeFileSync_keeps_writable:
  assumes w: "writeFileSync fs p body = Inr fs'" and q: "writable fs q"
  shows "writable fs' q"
proof -
  let ?k = "segments (cwd fs) [p]" and ?j = "segments (cwd fs) [q]"
  from w have nd: "node_at fs ?k \<noteq> Some Dir"
    by (auto simp: writeFileSync_def Let_def split: option.splits node.splits)
  from q have a: "node_at fs ?j \<noteq> Some Dir" and b: "node_at fs (butlast ?j) = Some Dir"
    by (simp_all add: writable_def Let_def)
  from b nd have "butlast ?j \<noteq> ?k" by auto
  with a b show ?thesis
    by (simp add: writable_def Let_def writeFileSync_effect [OF w])
qed

lemma readFileSync_after_write:
  assumes w: "writeFileSync fs p body = Inr fs'"
  shows "readFileSync fs' p = Inr body"
  by (simp add: readFileSync_def lookup_def writeFileSync_effect [OF w])

lemma lookup_after_write:
  assumes w: "writeFileSync fs p body = Inr fs'"
  shows "lookup fs' q = (if segments (cwd fs) [q] = segments (cwd fs) [p] then Some (File body)
                         else lookup fs q)"
  by (simp add: lookup_def writeFileSync_effect [OF w])

lemma readFileSync_errors: "readFileSync fs p = Inl e \<Longrightarrow> e = ENOENT \<or> e = EISDIR"
  by (auto simp: readFileSync_def split: option.splits node.splits)


lemma get_prop_errors: "get_prop v name = Inl e \<Longrightarrow> e = TypeError"
  by (cases v) (auto simp: get_prop_def split: json.splits)

lemma get_prop_Inr_iff: "get_prop (Some v) name = Inr x \<longleftrightarrow> v \<noteq> JNull \<and> x = own_prop v name"
  by (cases v) (auto simp: get_prop_def)

lemma own_prop_not_null: "own_prop v name = Some x \<Longrightarrow> v \<noteq> JNull"
  by (cases v) simp_all

subsection \<open>\<open>saveGame\<close>\<close>

text \<open>
  Claim C1. When \<open>serialize\<close> returns a serialized game with the id and the save counter
  of the game \<open>g\<close>, and the two files can be written, \<open>saveGame(g)\<close> succeeds; afterwards
  the snapshot file of \<open>g.id\<close> and the history file at \<open>(g.id, g.lastSaveId)\<close> both
  hold the serialized text, no other path of the disk has changed, and the caller's game
  is \<open>g\<close> with \<open>lastSaveId\<close> incremented by exactly one.
\<close>

theorem saveGame_writes_both_and_increments:
  assumes ser: "serialize E game = Inr sg"
    and ids: "sg_id sg = g_id game" "sg_lastSaveId sg = g_lastSaveId game"
    and w1: "writable fs (filename (cwd fs) L (g_id game))"
    and w2: "writable fs (historyFilename (cwd fs) L (g_id game) (NatNum (g_lastSaveId game)))"
  shows "\<exists>fs'. saveGame E L fs game = (fs', game\<lparr>g_lastSaveId := g_lastSaveId game + 1\<rparr>, None)
           \<and> readFileSync fs' (filename (cwd fs) L (g_id game)) = Inr (JSON_stringify E sg)
           \<and> readFileSync fs' (historyFilename (cwd fs) L (g_id game) (NatNum (g_lastSaveId game)))
               = Inr (JSON_stringify E sg)
           \<and> (\<forall>q. segments (cwd fs) [q] \<noteq> segments (cwd fs) [filename (cwd fs) L (g_id game)]
                  \<longrightarrow> segments (cwd fs) [q]
                       \<noteq> segments (cwd fs)
                            [historyFilename (cwd fs) L (g_id game) (NatNum (g_lastSaveId game))]
                  \<longrightarrow> lookup fs' q = lookup fs q)"
proof -
  let ?p1 = "filename (cwd fs) L (g_id game)"
  let ?p2 = "historyFilename (cwd fs) L (g_id game) (NatNum (g_lastSaveId game))"
  let ?body = "JSON_stringify E sg"
  from writeFileSync_ok [OF w1] obtain fs1 where s1: "writeFileSync fs ?p1 ?body = Inr fs1"
    by blast
  have c1: "cwd fs1 = cwd fs" using s1 by (rule writeFileSync_effect)
  from writeFileSync_ok [OF writeFileSync_keeps_writable [OF s1 w2]]
  obtain fs2 where s2: "writeFileSync fs1 ?p2 ?body = Inr fs2" by blast
  have run: "saveGame E L fs game = (fs2, game\<lparr>g_lastSaveId := g_lastSaveId game + 1\<rparr>, None)"
    using ser ids s1 s2 c1 by (simp add: saveGame_def saveSerializedGame_def Let_def)
  have r2: "readFileSync fs2 ?p2 = Inr ?body" by (rule readFileSync_after_write [OF s2])
  have l1: "lookup fs1 ?p1 = Some (File ?body)" by (simp add: lookup_after_write [OF s1])
  have r1: "readFileSync fs2 ?p1 = Inr ?body"
    using l1 by (simp add: readFileSync_def lookup_after_write [OF s2] c1)
  have others: "\<forall>q. segments (cwd fs) [q] \<noteq> segments (cwd fs) [?p1]
                  \<longrightarrow> segments (cwd fs) [q] \<noteq> segments (cwd fs) [?p2]
                  \<longrightarrow> lookup fs2 q = lookup fs q"
    by (simp add: lookup_after_write [OF s2] lookup_after_write [OF s1] c1)
  from run r1 r2 others show ?thesis by blast
qed

theorem saveGame_writes_both_and_increments_witness:
  "writable demo_disk ''/srv/db/g1.json''
   \<and> writable demo_disk ''/srv/db/history/g1-00002.json''
   \<and> snd (saveGame demo_env demo_store demo_disk demo_game)
       = (demo_game\<lparr>g_lastSaveId := 3\<rparr>, None)
   \<and> readFileSync (fst (saveGame demo_env demo_store demo_disk demo_game)) ''/srv/db/g1.json''
       = Inr ''g1;2;p1,p2,;s1''
   \<and> readFileSync (fst (saveGame demo_env demo_store demo_disk demo_game))
         ''/srv/db/history/g1-00002.json''
       = Inr ''g1;2;p1,p2,;s1''
   \<and> lookup (fst (saveGame demo_env demo_store demo_disk demo_game))
         ''/srv/db/history/g1-00001.json''
       = lookup demo_disk ''/srv/db/history/g1-00001.json''"
proof -
  let ?sg = "\<lparr>sg_id = ''g1'', sg_lastSaveId = 2,
              sg_players = [\<lparr>sp_id = ''p1''\<rparr>, \<lparr>sp_id = ''p2''\<rparr>],
              sg_spectatorId = Some ''s1''\<rparr>"
  have ser: "serialize demo_env demo_game = Inr ?sg" by code_simp
  have i1: "sg_id ?sg = g_id demo_game" by code_simp
  have i2: "sg_lastSaveId ?sg = g_lastSaveId demo_game" by code_simp
  have p1: "filename (cwd demo_disk) demo_store (g_id demo_game) = ''/srv/db/g1.json''"
    by code_simp
  have p2: "historyFilename (cwd demo_disk) demo_store (g_id demo_game)
              (NatNum (g_lastSaveId demo_game)) = ''/srv/db/history/g1-00002.json''"
    by code_simp
  have w1: "writable demo_disk ''/srv/db/g1.json''" by code_simp
  have w2: "writable demo_disk ''/srv/db/history/g1-00002.json''" by code_simp
  have body: "JSON_stringify demo_env ?sg = ''g1;2;p1,p2,;s1''" by code_simp
  have n: "g_lastSaveId demo_game + 1 = 3" by code_simp
  have q1: "segments (cwd demo_disk) [''/srv/db/history/g1-00001.json'']
            \<noteq> segments (cwd demo_disk) [''/srv/db/g1.json'']" by code_simp
  have q2: "segments (cwd demo_disk) [''/srv/db/history/g1-00001.json'']
            \<noteq> segments (cwd demo_disk) [''/srv/db/history/g1-00002.json'']" by code_simp
  from saveGame_writes_both_and_increments
         [of demo_env demo_game ?sg demo_disk demo_store, unfolded p1 p2 body n,
          OF ser i1 i2 w1 w2]
  obtain fs' where
    "saveGame demo_env demo_store demo_disk demo_game = (fs', demo_game\<lparr>g_lastSaveId := 3\<rparr>, None)"
    "readFileSync fs' ''/srv/db/g1.json'' = Inr ''g1;2;p1,p2,;s1''"
    "readFileSync fs' ''/srv/db/history/g1-00002.json'' = Inr ''g1;2;p1,p2,;s1''"
    "lookup fs' ''/srv/db/history/g1-00001.json'' = lookup demo_disk ''/srv/db/history/g1-00001.json''"
    using q1 q2 by blast
  with w1 w2 show ?thesis by simp
qed

text \<open>
  Claim C10. Whenever \<open>saveGame(g)\<close> ends with an error (from \<open>serialize\<close> or from one
  of the two writes) the caller's game is \<open>g\<close>, unchanged, so \<open>g.lastSaveId\<close> is what it
  was; and whenever \<open>saveGame(g)\<close> has changed \<open>g.lastSaveId\<close>, the serialization, the
  write of the snapshot and then the write of the history entry have all succeeded.
\<close>

theorem saveGame_error_keeps_lastSaveId:
  assumes "saveGame E L fs game = (fs', game', r)"
  shows "(r \<noteq> None \<longrightarrow> game' = game)
       \<and> (g_lastSaveId game' \<noteq> g_lastSaveId game \<longrightarrow>
            (\<exists>sg fs1. serialize E game = Inr sg
               \<and> writeFileSync fs (filename (cwd fs) L (sg_id sg)) (JSON_stringify E sg) = Inr fs1
               \<and> writeFileSync fs1
                    (historyFilename (cwd fs1) L (sg_id sg) (NatNum (sg_lastSaveId sg)))
                    (JSON_stringify E sg) = Inr fs'))"
  using assms
  by (auto simp: saveGame_def saveSerializedGame_def Let_def
           split: sum.splits option.splits prod.splits)

theorem saveGame_error_keeps_lastSaveId_witness:
  "snd (snd (saveGame demo_env demo_store bare_disk demo_game)) = Some ENOENT
   \<and> fst (saveGame demo_env demo_store bare_disk demo_game)
       = \<lparr>cwd = ''/srv'',
          nodes = [([''srv''], Dir), ([''srv'', ''db''], Dir),
                   ([''srv'', ''db'', ''g1.json''], File ''g1;2;p1,p2,;s1'')]\<rparr>
   \<and> fst (snd (saveGame demo_env demo_store bare_disk demo_game)) = demo_game"
proof -
  let ?S = "saveGame demo_env demo_store bare_disk demo_game"
  have e: "snd (snd ?S) = Some ENOENT" by code_simp
  have d: "fst ?S
       = \<lparr>cwd = ''/srv'',
          nodes = [([''srv''], Dir), ([''srv'', ''db''], Dir),
                   ([''srv'', ''db'', ''g1.json''], File ''g1;2;p1,p2,;s1'')]\<rparr>"
    by code_simp
  have "?S = (fst ?S, fst (snd ?S), snd (snd ?S))" by simp
  from saveGame_error_keeps_lastSaveId [OF this] e have "fst (snd ?S) = demo_game" by simp
  with e d show ?thesis by simp
qed

subsection \<open>\<open>deleteGameNbrSaves\<close>\<close>

text \<open>
  Claim C8. For a rollback count that is zero or negative, \<open>deleteGameNbrSaves\<close> resolves
  without an error and leaves the disk as it was: no history entry is deleted.
\<close>

theorem deleteGameNbrSaves_nonpositive:
  "rollbackCount \<le> 0 \<Longrightarrow> deleteGameNbrSaves E L fs gId rollbackCount = (fs, None)"
  by (simp add: deleteGameNbrSaves_def)

theorem deleteGameNbrSaves_nonpositive_witness:
  "(- 2 :: int) \<le> 0
   \<and> deleteGameNbrSaves demo_env demo_store demo_disk ''g1'' (- 2) = (demo_disk, None)
   \<and> deleteGameNbrSaves demo_env demo_store demo_disk ''g1'' 0 = (demo_disk, None)"
proof -
  have a: "(- 2 :: int) \<le> 0" and b: "(0 :: int) \<le> 0" by simp_all
  from deleteGameNbrSaves_nonpositive [OF a, of demo_env demo_store demo_disk "''g1''"]
    deleteGameNbrSaves_nonpositive [OF b, of demo_env demo_store demo_disk "''g1''"]
  show ?thesis by simp
qed

subsection \<open>\<open>getGame\<close>\<close>

text \<open>
  Claim C3, as the code has it. \<open>getGame(g)\<close> fails with the error \<open>ENOENT\<close> of
  \<open>readFileSync\<close> (not found) when nothing exists at the path of the current-state file
  of \<open>g\<close>, and with \<open>EISDIR\<close> when a directory is there. When the file can be read, it
  fails with the \<open>SyntaxError\<close> of \<open>JSON.parse\<close> (corrupt data) if the content is not JSON
  text, and otherwise returns the parsed value as it is, whether or not that value is a
  serialized game.
\<close>

theorem getGame_notFound_syntax_or_parsed_value:
  "(\<not> existsSync fs (filename (cwd fs) L g) \<longrightarrow> getGame E L fs g = Inl ENOENT)
   \<and> (lookup fs (filename (cwd fs) L g) = Some Dir \<longrightarrow> getGame E L fs g = Inl EISDIR)
   \<and> (\<forall>body. readFileSync fs (filename (cwd fs) L g) = Inr body \<longrightarrow>
         (JSON_parse E body = None \<longrightarrow> getGame E L fs g = Inl SyntaxError)
       \<and> (\<forall>v. JSON_parse E body = Some v \<longrightarrow> getGame E L fs g = Inr v))"
  by (auto simp: getGame_def existsSync_def readFileSync_def split: option.splits node.splits)

theorem getGame_notFound_syntax_or_parsed_value_witness:
  "getGame demo_env demo_store demo_disk ''g9'' = Inl ENOENT
   \<and> getGame demo_env demo_store unchecked_disk ''g6'' = Inl EISDIR
   \<and> getGame demo_env demo_store damaged_disk ''g2'' = Inl SyntaxError
   \<and> getGame demo_env demo_store demo_disk ''g5''
       = Inr (demo_json \<lparr>sg_id = ''g5'', sg_lastSaveId = 0, sg_players = [\<lparr>sp_id = ''p3''\<rparr>],
                         sg_spectatorId = None\<rparr>)"
proof -
  let ?v = "demo_json \<lparr>sg_id = ''g5'', sg_lastSaveId = 0, sg_players = [\<lparr>sp_id = ''p3''\<rparr>],
                       sg_spectatorId = None\<rparr>"
  have a: "\<not> existsSync demo_disk (filename (cwd demo_disk) demo_store ''g9'')" by code_simp
  have d: "lookup unchecked_disk (filename (cwd unchecked_disk) demo_store ''g6'') = Some Dir"
    by code_simp
  have b: "readFileSync damaged_disk (filename (cwd damaged_disk) demo_store ''g2'')
           = Inr ''not json''" by code_simp
  have b': "JSON_parse demo_env ''not json'' = None" by code_simp
  have c: "readFileSync demo_disk (filename (cwd demo_disk) demo_store ''g5'') = Inr ''g5;0;p3,;''"
    by code_simp
  have c': "JSON_parse demo_env ''g5;0;p3,;'' = Some ?v" by code_simp
  from getGame_notFound_syntax_or_parsed_value [of demo_disk demo_store "''g9''" demo_env] a
  have 1: "getGame demo_env demo_store demo_disk ''g9'' = Inl ENOENT" by blast
  from getGame_notFound_syntax_or_parsed_value [of unchecked_disk demo_store "''g6''" demo_env] d
  have 2: "getGame demo_env demo_store unchecked_disk ''g6'' = Inl EISDIR" by blast
  from getGame_notFound_syntax_or_parsed_value [of damaged_disk demo_store "''g2''" demo_env] b b'
  have 3: "getGame demo_env demo_store damaged_disk ''g2'' = Inl SyntaxError" by blast
  from getGame_notFound_syntax_or_parsed_value [of demo_disk demo_store "''g5''" demo_env] c c'
  have 4: "getGame demo_env demo_store demo_disk ''g5'' = Inr ?v" by blast
  from 1 2 3 4 show ?thesis by simp
qed

text \<open>
  Claim C3 as stated fails where the content of the file is JSON text but not a
  serialized game: the snapshot file of \<open>g4\<close> holds the text \<open>42\<close>, and \<open>getGame(g4)\<close>
  does not fail but returns the number 42.
\<close>

theorem getGame_not_a_game_counterexample:
  "readFileSync unchecked_disk (filename (cwd unchecked_disk) demo_store ''g4'') = Inr ''42''
   \<and> JSON_parse demo_env ''42'' = Some (JNum (NatNum 42))
   \<and> getGame demo_env demo_store unchecked_disk ''g4'' = Inr (JNum (NatNum 42))"
  by code_simp

subsection \<open>\<open>getGameVersion\<close> and \<open>restoreGame\<close>\<close>

text \<open>
  Claim C6, as the code has it. \<open>getGameVersion(g, s)\<close> either returns the parsed
  content of the history entry at \<open>(g, s)\<close>, which then can be read and parses, or it
  fails with the message \<open>Game {gameId} not found at save_id {saveId}\<close>, and then the
  entry cannot be read or its content does not parse. There is no other failure.
\<close>

theorem getGameVersion_data_or_not_found:
  "(\<exists>body sg. readFileSync fs (historyFilename (cwd fs) L g (NatNum s)) = Inr body
       \<and> JSON_parse E body = Some sg \<and> getGameVersion E L fs g s = Inr sg)
   \<or> ((\<forall>body. readFileSync fs (historyFilename (cwd fs) L g (NatNum s)) = Inr body
           \<longrightarrow> JSON_parse E body = None)
       \<and> getGameVersion E L fs g s
           = Inl (Error (''Game '' @ g @ '' not found at save_id '' @ nat_toString s)))"
  by (auto simp: getGameVersion_def split: sum.splits option.splits)

theorem getGameVersion_data_or_not_found_witness:
  "getGameVersion demo_env demo_store demo_disk ''g1'' 1
     = Inr (demo_json \<lparr>sg_id = ''g1'', sg_lastSaveId = 1,
                       sg_players = [\<lparr>sp_id = ''p1''\<rparr>, \<lparr>sp_id = ''p2''\<rparr>],
                       sg_spectatorId = Some ''s1''\<rparr>)
   \<and> getGameVersion demo_env demo_store demo_disk ''g1'' 7
     = Inl (Error ''Game g1 not found at save_id 7'')"
proof -
  have a: "readFileSync demo_disk (historyFilename (cwd demo_disk) demo_store ''g1'' (NatNum 1))
           = Inr ''g1;1;p1,p2,;s1''" by code_simp
  have a': "JSON_parse demo_env ''g1;1;p1,p2,;s1''
            = Some (demo_json \<lparr>sg_id = ''g1'', sg_lastSaveId = 1,
                              sg_players = [\<lparr>sp_id = ''p1''\<rparr>, \<lparr>sp_id = ''p2''\<rparr>],
                              sg_spectatorId = Some ''s1''\<rparr>)" by code_simp
  have b: "readFileSync demo_disk (historyFilename (cwd demo_disk) demo_store ''g1'' (NatNum 7))
           = Inl ENOENT" by code_simp
  have m: "''Game '' @ ''g1'' @ '' not found at save_id '' @ nat_toString 7
           = ''Game g1 not found at save_id 7''" by code_simp
  from getGameVersion_data_or_not_found [of demo_disk demo_store "''g1''" 1 demo_env] a a'
  have 1: "getGameVersion demo_env demo_store demo_disk ''g1'' 1
     = Inr (demo_json \<lparr>sg_id = ''g1'', sg_lastSaveId = 1,
                       sg_players = [\<lparr>sp_id = ''p1''\<rparr>, \<lparr>sp_id = ''p2''\<rparr>],
                       sg_spectatorId = Some ''s1''\<rparr>)" by auto
  from getGameVersion_data_or_not_found [of demo_disk demo_store "''g1''" 7 demo_env] b
  have 2: "getGameVersion demo_env demo_store demo_disk ''g1'' 7
     = Inl (Error ''Game g1 not found at save_id 7'')" unfolding m by auto
  from 1 2 show ?thesis by simp
qed

text \<open>
  Claim C6 as stated fails where the history entry is present but does not parse: the
  entry of \<open>g2\<close> at save id 0 exists and can be read, and \<open>getGameVersion\<close> still
  fails with the not-found message.
\<close>

theorem getGameVersion_present_entry_counterexample:
  "existsSync damaged_disk (historyFilename (cwd damaged_disk) demo_store ''g2'' (NatNum 0))
   \<and> readFileSync damaged_disk (historyFilename (cwd damaged_disk) demo_store ''g2'' (NatNum 0))
       = Inr ''not json''
   \<and> getGameVersion demo_env demo_store damaged_disk ''g2'' 0
       = Inl (Error ''Game g2 not found at save_id 0'')"
  by code_simp

text \<open>
  Claim C2. When the history entry at \<open>(g, s)\<close> can be read and the snapshot file of
  \<open>g\<close> can be written, \<open>restoreGame(g, s)\<close> copies the entry and returns what \<open>getGame(g)\<close>
  then returns; \<open>getGame(g)\<close> on the disk after the call yields a game exactly when
  \<open>getGameVersion(g, s)\<close> yields that game, and the history entry is as it was.
\<close>

theorem restoreGame_then_getGame:
  assumes rd: "readFileSync fs (historyFilename (cwd fs) L g (NatNum s)) = Inr body"
    and w: "writable fs (filename (cwd fs) L g)"
  shows "\<exists>fs'. restoreGame E L fs g s = (fs', getGame E L fs' g)
           \<and> (\<forall>v. getGame E L fs' g = Inr v \<longleftrightarrow> getGameVersion E L fs g s = Inr v)
           \<and> getGameVersion E L fs' g s = getGameVersion E L fs g s"
proof -
  let ?ph = "historyFilename (cwd fs) L g (NatNum s)"
  let ?ps = "filename (cwd fs) L g"
  from writeFileSync_ok [OF w] obtain fs' where wr: "writeFileSync fs ?ps body = Inr fs'"
    by blast
  have c: "cwd fs' = cwd fs" using wr by (rule writeFileSync_effect)
  from rd have src: "lookup fs ?ph = Some (File body)"
    by (auto simp: readFileSync_def split: option.splits node.splits)
  have run: "restoreGame E L fs g s = (fs', getGame E L fs' g)"
    using src wr by (simp add: restoreGame_def copyFileSync_def)
  have snap: "readFileSync fs' ?ps = Inr body" by (rule readFileSync_after_write [OF wr])
  from src have hist: "readFileSync fs' ?ph = Inr body"
    by (simp add: readFileSync_def lookup_after_write [OF wr])
  have same: "getGameVersion E L fs' g s = getGameVersion E L fs g s"
    using rd hist c by (simp add: getGameVersion_def)
  have eq: "\<forall>v. getGame E L fs' g = Inr v \<longleftrightarrow> getGameVersion E L fs g s = Inr v"
    using rd snap c by (auto simp: getGame_def getGameVersion_def split: option.splits)
  from run eq same show ?thesis by blast
qed

theorem restoreGame_then_getGame_witness:
  "readFileSync demo_disk (historyFilename (cwd demo_disk) demo_store ''g1'' (NatNum 0))
     = Inr ''g1;0;p1,p2,;''
   \<and> writable demo_disk (filename (cwd demo_disk) demo_store ''g1'')
   \<and> getGame demo_env demo_store demo_disk ''g1''
       \<noteq> getGameVersion demo_env demo_store demo_disk ''g1'' 0
   \<and> getGame demo_env demo_store
         (fst (restoreGame demo_env demo_store demo_disk ''g1'' 0)) ''g1''
       = getGameVersion demo_env demo_store demo_disk ''g1'' 0
   \<and> snd (restoreGame demo_env demo_store demo_disk ''g1'' 0)
       = getGameVersion demo_env demo_store demo_disk ''g1'' 0"
proof -
  let ?v = "demo_json \<lparr>sg_id = ''g1'', sg_lastSaveId = 0,
                        sg_players = [\<lparr>sp_id = ''p1''\<rparr>, \<lparr>sp_id = ''p2''\<rparr>],
                        sg_spectatorId = None\<rparr>"
  have rd: "readFileSync demo_disk (historyFilename (cwd demo_disk) demo_store ''g1'' (NatNum 0))
            = Inr ''g1;0;p1,p2,;''" by code_simp
  have w: "writable demo_disk (filename (cwd demo_disk) demo_store ''g1'')" by code_simp
  have old: "getGame demo_env demo_store demo_disk ''g1''
             \<noteq> getGameVersion demo_env demo_store demo_disk ''g1'' 0" by code_simp
  have gv: "getGameVersion demo_env demo_store demo_disk ''g1'' 0 = Inr ?v" by code_simp
  from restoreGame_then_getGame [OF rd w, of demo_env] obtain fs'
    where run: "restoreGame demo_env demo_store demo_disk ''g1'' 0
                = (fs', getGame demo_env demo_store fs' ''g1'')"
      and eq: "\<forall>v. getGame demo_env demo_store fs' ''g1'' = Inr v
                 \<longleftrightarrow> getGameVersion demo_env demo_store demo_disk ''g1'' 0 = Inr v"
    by blast
  from eq gv have "getGame demo_env demo_store fs' ''g1'' = Inr ?v" by simp
  with run gv rd w old show ?thesis by simp
qed

subsection \<open>\<open>getPlayerCount\<close>\<close>

text \<open>
  Claim C5, as the code has it. With \<open>ids\<close> the result of \<open>getGameIds()\<close>,
  \<open>getPlayerCount(g)\<close> fails with the message \<open>{g} not found\<close> exactly when \<open>g\<close> is not
  one of \<open>ids\<close> (no regular file of the db folder has a name that gives \<open>g\<close>) or nothing
  exists at the path of the history entry of \<open>g\<close> with save id 0; and when \<open>g\<close> is one of
  \<open>ids\<close> and \<open>getGameVersion(g, 0)\<close> yields a value whose \<open>players\<close> is a list,
  \<open>getPlayerCount(g)\<close> is the length of that list. For any value \<open>v\<close> that
  \<open>getGameVersion(g, 0)\<close> yields, \<open>getPlayerCount(g)\<close> is \<open>v.players.length\<close>.
\<close>

theorem getPlayerCount_listed_and_first_entry:
  assumes ids: "getGameIds E L fs = Inr ids"
  shows "(getPlayerCount E L fs g = Inl (Error (g @ '' not found''))
            \<longleftrightarrow> (g \<notin> set ids \<or> \<not> existsSync fs (historyFilename (cwd fs) L g (NatNum 0))))
       \<and> (\<forall>v ps. g \<in> set ids \<longrightarrow> getGameVersion E L fs g 0 = Inr v
             \<longrightarrow> own_prop v ''players'' = Some (JArr ps)
             \<longrightarrow> getPlayerCount E L fs g = Inr (Some (JNum (NatNum (length ps)))))
       \<and> (\<forall>v. g \<in> set ids \<longrightarrow> getGameVersion E L fs g 0 = Inr v
             \<longrightarrow> getPlayerCount E L fs g
                 = (case get_prop (Some v) ''players'' of
                      Inl e \<Rightarrow> Inl e
                    | Inr players \<Rightarrow> get_prop players ''length''))"
proof -
  let ?h = "historyFilename (cwd fs) L g (NatNum 0)"
  let ?P = "\<lambda>gId. gId = g \<and> existsSync fs ?h"
  have none: "find ?P ids = None \<longleftrightarrow> (g \<notin> set ids \<or> \<not> existsSync fs ?h)"
    by (auto simp: find_None_iff)
  have a: "getPlayerCount E L fs g = Inl (Error (g @ '' not found'')) \<longleftrightarrow> find ?P ids = None"
    using ids by (auto simp: getPlayerCount_def split: option.splits sum.splits
                       dest: readFileSync_errors get_prop_errors)
  have c: "\<forall>v. g \<in> set ids \<longrightarrow> getGameVersion E L fs g 0 = Inr v
             \<longrightarrow> getPlayerCount E L fs g
                 = (case get_prop (Some v) ''players'' of
                      Inl e \<Rightarrow> Inl e
                    | Inr players \<Rightarrow> get_prop players ''length'')"
  proof (intro allI impI)
    fix v
    assume g: "g \<in> set ids" and v: "getGameVersion E L fs g 0 = Inr v"
    from v obtain body where rd: "readFileSync fs ?h = Inr body"
      and ps: "JSON_parse E body = Some v"
      by (auto simp: getGameVersion_def split: sum.splits option.splits)
    from rd have "existsSync fs ?h"
      by (auto simp: existsSync_def readFileSync_def split: option.splits)
    with g have "find ?P ids \<noteq> None" unfolding none by blast
    then show "getPlayerCount E L fs g
                 = (case get_prop (Some v) ''players'' of
                      Inl e \<Rightarrow> Inl e
                    | Inr players \<Rightarrow> get_prop players ''length'')"
      using ids rd ps by (auto simp: getPlayerCount_def split: option.splits)
  qed
  have b: "\<forall>v ps. g \<in> set ids \<longrightarrow> getGameVersion E L fs g 0 = Inr v
             \<longrightarrow> own_prop v ''players'' = Some (JArr ps)
             \<longrightarrow> getPlayerCount E L fs g = Inr (Some (JNum (NatNum (length ps))))"
  proof (intro allI impI)
    fix v ps
    assume g: "g \<in> set ids" and v: "getGameVersion E L fs g 0 = Inr v"
      and pl: "own_prop v ''players'' = Some (JArr ps)"
    have p1: "get_prop (Some v) ''players'' = Inr (Some (JArr ps))"
      using pl own_prop_not_null [OF pl] by (simp add: get_prop_Inr_iff)
    have p2: "get_prop (Some (JArr ps)) ''length'' = Inr (Some (JNum (NatNum (length ps))))"
      by (simp add: get_prop_def)
    from c g v p1 p2 show "getPlayerCount E L fs g = Inr (Some (JNum (NatNum (length ps))))"
      by simp
  qed
  from a none b c show ?thesis by simp
qed

theorem getPlayerCount_listed_and_first_entry_witness:
  "getGameIds demo_env demo_store demo_disk = Inr [''g1'', ''g5'']
   \<and> getPlayerCount demo_env demo_store demo_disk ''g1'' = Inr (Some (JNum (NatNum 2)))
   \<and> getPlayerCount demo_env demo_store demo_disk ''g9'' = Inl (Error ''g9 not found'')"
proof -
  let ?ps = "[JObj [(''id'', JStr ''p1'')], JObj [(''id'', JStr ''p2'')]]"
  let ?v = "JObj [(''id'', JStr ''g1''), (''lastSaveId'', JNum (NatNum 0)), (''players'', JArr ?ps)]"
  have ids: "getGameIds demo_env demo_store demo_disk = Inr [''g1'', ''g5'']" by code_simp
  have gv: "getGameVersion demo_env demo_store demo_disk ''g1'' 0 = Inr ?v" by code_simp
  have pl: "own_prop ?v ''players'' = Some (JArr ?ps)" by simp
  have m: "''g9'' @ '' not found'' = ''g9 not found''" by simp
  from getPlayerCount_listed_and_first_entry [OF ids, of "''g1''"] gv pl
  have 1: "getPlayerCount demo_env demo_store demo_disk ''g1'' = Inr (Some (JNum (NatNum 2)))"
    by simp
  from getPlayerCount_listed_and_first_entry [OF ids, of "''g9''"]
  have 2: "getPlayerCount demo_env demo_store demo_disk ''g9'' = Inl (Error ''g9 not found'')"
    unfolding m by simp
  from ids 1 2 show ?thesis by simp
qed

text \<open>
  Claim C5 as stated fails where a game has its history entry with save id 0 but no
  snapshot file: \<open>getGameVersion(g3, 0)\<close> yields a game with two players, \<open>g3\<close> is not
  among the game ids, and \<open>getPlayerCount(g3)\<close> fails.
\<close>

theorem getPlayerCount_without_snapshot_counterexample:
  "getGameVersion demo_env demo_store damaged_disk ''g3'' 0
     = Inr (demo_json \<lparr>sg_id = ''g3'', sg_lastSaveId = 0,
                       sg_players = [\<lparr>sp_id = ''p1''\<rparr>, \<lparr>sp_id = ''p2''\<rparr>],
                       sg_spectatorId = None\<rparr>)
   \<and> \<not> existsSync damaged_disk (filename (cwd damaged_disk) demo_store ''g3'')
   \<and> getGameIds demo_env demo_store damaged_disk = Inr [''g2'']
   \<and> getPlayerCount demo_env demo_store damaged_disk ''g3'' = Inl (Error ''g3 not found'')"
  by code_simp

subsection \<open>\<open>getParticipants\<close>\<close>








subsection \<open>Decimal numerals\<close>

lemma digit_char_props:
  "d < 10 \<Longrightarrow> is_digit (digit_char d) \<and> digit_val (digit_char d) = d"
proof -
  assume "d < 10"
  then have "d \<in> {0, 1, 2, 3, 4, 5, 6, 7, 8, 9}" by auto
  then show ?thesis
    by (auto simp: digit_char_def is_digit_def digit_val_def)
qed

lemma is_digit_code: "is_digit c \<Longrightarrow> of_char c = 48 + digit_val c \<and> digit_val c < 10"
  by (auto simp: is_digit_def digit_val_def)

lemma is_digit_not_sep: "is_digit c \<Longrightarrow> c \<noteq> CHR ''-'' \<and> c \<noteq> CHR ''/'' \<and> is_dot c"
  by (auto simp: is_digit_def is_dot_def)

lemma decimal_snoc: "decimal (xs @ [c]) = 10 * decimal xs + digit_val c"
  by (simp add: decimal_def)

lemma nat_toString_digits: "list_all is_digit (nat_toString n)"
proof (induction n rule: nat_toString.induct)
  case (1 n)
  show ?case
  proof (cases "n < 10")
    case True
    then show ?thesis by (subst nat_toString.simps) (simp add: digit_char_props)
  next
    case False
    with 1 show ?thesis by (subst nat_toString.simps) (simp add: digit_char_props)
  qed
qed

lemma nat_toString_nonempty: "nat_toString n \<noteq> []"
  by (subst nat_toString.simps) simp

lemma decimal_nat_toString: "decimal (nat_toString n) = n"
proof (induction n rule: nat_toString.induct)
  case (1 n)
  show ?case
  proof (cases "n < 10")
    case True
    then show ?thesis
      by (subst nat_toString.simps) (simp add: decimal_def digit_char_props)
  next
    case False
    with 1 have "decimal (nat_toString (n div 10)) = n div 10" by simp
    with False show ?thesis
      by (subst nat_toString.simps) (simp add: decimal_snoc digit_char_props)
  qed
qed

lemma decimal_leading_zeros: "decimal (replicate k CHR ''0'' @ s) = decimal s"
proof -
  have "foldl (\<lambda>a c. 10 * a + digit_val c) 0 (replicate k CHR ''0'') = 0"
    by (induction k) (simp_all add: digit_val_def)
  then show ?thesis by (simp add: decimal_def)
qed

lemma is_digit_zero: "is_digit CHR ''0''"
  by (simp add: is_digit_def)

lemma padded_digits: "list_all is_digit (padStart w CHR ''0'' (nat_toString n))"
  using nat_toString_digits [of n] by (auto simp: padStart_def list_all_iff is_digit_zero)

lemma padded_nonempty: "padStart w c (nat_toString n) \<noteq> []"
  by (simp add: padStart_def nat_toString_nonempty)

lemma decimal_padded: "decimal (padStart w CHR ''0'' (nat_toString n)) = n"
  by (simp add: padStart_def decimal_leading_zeros decimal_nat_toString)

lemma Number_padded: "Number E (padStart w CHR ''0'' (nat_toString n)) = NatNum n"
  by (simp add: Number_def padded_digits padded_nonempty decimal_padded)

subsection \<open>The pattern of \<open>getSaveIds\<close> on the names of history files\<close>

lemma dash_then_simps:
  "dash_then [] = None"
  "dash_then (c # r) = (if c = CHR ''-'' then dot_star dot_json r else None)"
  by (simp_all add: dash_then_def)

lemma dot_star_no_dash: "CHR ''-'' \<notin> set xs \<Longrightarrow> dot_star dash_then xs = None"
  by (induction xs) (auto simp: dash_then_simps)

lemma dot_star_dot_json_digits:
  "list_all is_digit d \<Longrightarrow> dot_star dot_json (d @ ''.json'') = Some (d, ())"
proof (induction d)
  case Nil
  show ?case by (simp add: dot_json_def is_dot_def)
next
  case (Cons c d)
  then show ?case by (simp add: is_digit_not_sep)
qed

lemma dot_star_dash_first:
  assumes "list_all is_digit d"
  shows "dot_star dash_then (''-'' @ d @ ''.json'') = Some ([], d, ())"
proof -
  have "CHR ''-'' \<notin> set (d @ ''.json'')" using assms
    by (auto simp: list_all_iff dest: is_digit_not_sep)
  from dot_star_no_dash [OF this] show ?thesis
    by (simp add: dash_then_simps dot_star_dot_json_digits [OF assms] is_dot_def)
qed


lemma dot_star_dash_then_group2:
  assumes "CHR ''-'' \<notin> set g" and "list_all is_digit d"
  shows "dot_star dash_then (g @ ''-'' @ d @ ''.json'') = None
       \<or> (\<exists>g1. dot_star dash_then (g @ ''-'' @ d @ ''.json'') = Some (g1, d, ()))"
  using assms(1)
proof (induction g)
  case Nil
  show ?case using dot_star_dash_first [OF assms(2)] by simp
next
  case (Cons c g)
  then have c: "c \<noteq> CHR ''-''" and
    ih: "dot_star dash_then (g @ ''-'' @ d @ ''.json'') = None
       \<or> (\<exists>g1. dot_star dash_then (g @ ''-'' @ d @ ''.json'') = Some (g1, d, ()))"
    by auto
  from ih show ?case
  proof
    assume "dot_star dash_then (g @ ''-'' @ d @ ''.json'') = None"
    with c show ?thesis by (simp add: dash_then_simps)
  next
    assume "\<exists>g1. dot_star dash_then (g @ ''-'' @ d @ ''.json'') = Some (g1, d, ())"
    then obtain g1 where "dot_star dash_then (g @ ''-'' @ d @ ''.json'') = Some (g1, d, ())" ..
    with c show ?thesis by (cases "is_dot c") (simp_all add: dash_then_simps)
  qed
qed

lemma search_history_name:
  assumes "CHR ''-'' \<notin> set g" and "list_all is_digit d"
  shows "\<exists>g1. search (dot_star dash_then) (g @ ''-'' @ d @ ''.json'') = Some (g1, d, ())"
  using assms(1)
proof (induction g)
  case Nil
  show ?case using dot_star_dash_first [OF assms(2)] by simp
next
  case (Cons c g)
  then have ih: "\<exists>g1. search (dot_star dash_then) (g @ ''-'' @ d @ ''.json'') = Some (g1, d, ())"
    by simp
  from Cons.prems have nd: "CHR ''-'' \<notin> set (c # g)" .
  from dot_star_dash_then_group2 [OF nd assms(2)]
  show ?case
  proof
    assume "dot_star dash_then ((c # g) @ ''-'' @ d @ ''.json'') = None"
    with ih show ?thesis by simp
  next
    assume "\<exists>g1. dot_star dash_then ((c # g) @ ''-'' @ d @ ''.json'') = Some (g1, d, ())"
    then obtain g1 where "dot_star dash_then ((c # g) @ ''-'' @ d @ ''.json'') = Some (g1, d, ())" ..
    then have "search (dot_star dash_then) ((c # g) @ ''-'' @ d @ ''.json'') = Some (g1, d, ())"
      by simp
    then show ?thesis ..
  qed
qed

lemma match_history_name:
  assumes "CHR ''-'' \<notin> set g" and "list_all is_digit d"
  shows "\<exists>g1. match_history (g @ ''-'' @ d @ ''.json'') = Some (g1, d)"
proof -
  from search_history_name [OF assms] obtain g1
    where "search (dot_star dash_then) (g @ ''-'' @ d @ ''.json'') = Some (g1, d, ())" ..
  then have "match_history (g @ ''-'' @ d @ ''.json'') = Some (g1, d)"
    by (simp add: match_history_def)
  then show ?thesis ..
qed

lemma startsWith_dash:
  assumes "CHR ''-'' \<notin> set g" and "CHR ''-'' \<notin> set g'"
  shows "startsWith (g' @ ''-'' @ r) (g @ ''-'') \<longleftrightarrow> g' = g"
  using assms
proof (induction g arbitrary: g')
  case Nil
  then show ?case by (cases g') (auto simp: startsWith_def)
next
  case (Cons c g)
  show ?case
  proof (cases g')
    case Nil
    with Cons.prems show ?thesis by (auto simp: startsWith_def)
  next
    case (Cons c' h)
    with Cons.prems Cons.IH [of h] show ?thesis by (auto simp: startsWith_def)
  qed
qed


lemma saveIds_loop_files: "saveIds_loop E g ents = saveIds_loop E g (filter d_isFile ents)"
  by (induction ents) (simp_all split: option.splits prod.splits)

lemma saveIds_loop_history_entry:
  assumes "d_isFile e" and "d_name e = g' @ ''-'' @ padStart 5 CHR ''0'' (nat_toString s) @ ''.json''"
    and "CHR ''-'' \<notin> set g'" and "CHR ''-'' \<notin> set g"
  shows "saveIds_loop E g (e # ds)
         = (if g' = g then NatNum s # saveIds_loop E g ds else saveIds_loop E g ds)"
proof -
  let ?d = "padStart 5 CHR ''0'' (nat_toString s)"
  from match_history_name [OF assms(3) padded_digits [of 5 s]] obtain g1
    where m: "match_history (d_name e) = Some (g1, ?d)" unfolding assms(2) ..
  have sw: "startsWith (d_name e) (g @ ''-'') \<longleftrightarrow> g' = g"
    unfolding assms(2) by (rule startsWith_dash [OF assms(4) assms(3)])
  show ?thesis using assms(1) m sw by (simp add: Number_padded)
qed

lemma saveIds_loop_history:
  assumes "list_all d_isFile ds"
    and "map d_name ds
         = map (\<lambda>(g', s). g' @ ''-'' @ padStart 5 CHR ''0'' (nat_toString s) @ ''.json'') hs"
    and "\<forall>(g', s) \<in> set hs. CHR ''-'' \<notin> set g'"
    and "CHR ''-'' \<notin> set g"
  shows "saveIds_loop E g ds = map (\<lambda>(g', s). NatNum s) (filter (\<lambda>(g', s). g' = g) hs)"
  using assms(1-3)
proof (induction ds arbitrary: hs)
  case Nil
  then show ?case by simp
next
  case (Cons e ds)
  from Cons.prems(2) obtain g' s hs' where hs: "hs = (g', s) # hs'"
    and nm: "d_name e = g' @ ''-'' @ padStart 5 CHR ''0'' (nat_toString s) @ ''.json''"
    and rest: "map d_name ds
               = map (\<lambda>(g', s). g' @ ''-'' @ padStart 5 CHR ''0'' (nat_toString s) @ ''.json'') hs'"
    by (cases hs) auto
  from Cons.prems(1) have f: "d_isFile e" and fs: "list_all d_isFile ds" by simp_all
  from Cons.prems(3) hs have d: "CHR ''-'' \<notin> set g'"
    and ds: "\<forall>(g', s) \<in> set hs'. CHR ''-'' \<notin> set g'" by auto
  have ih: "saveIds_loop E g ds = map (\<lambda>(g', s). NatNum s) (filter (\<lambda>(g', s). g' = g) hs')"
    by (rule Cons.IH [OF fs rest ds])
  show ?case
    unfolding saveIds_loop_history_entry [OF f nm d assms(4)] ih hs by simp
qed

subsection \<open>\<open>getSaveIds\<close>\<close>

text \<open>
  Claim C4, as the code has it. Let the regular files of the history folder be, in the
  order of the listing, the history files \<open>{g'}-{saveId}.json\<close> of the pairs \<open>hs\<close>, with
  the save id padded to five digits, and let neither \<open>g\<close> nor any of these game ids
  contain the character \<open>-\<close>. Then \<open>getSaveIds(g)\<close> is the list of the save ids of the
  pairs of \<open>g\<close>: one number for each history file of \<open>g\<close>, and none for a file of another
  game.
\<close>

theorem getSaveIds_of_dash_free_ids:
  assumes rd: "readdirSync fs (historyFolder L) = Inr ents"
    and files: "map d_name (filter d_isFile ents)
                = map (\<lambda>(g', s). g' @ ''-'' @ padStart 5 CHR ''0'' (nat_toString s) @ ''.json'') hs"
    and ids: "\<forall>(g', s) \<in> set hs. CHR ''-'' \<notin> set g'"
    and g: "CHR ''-'' \<notin> set g"
  shows "getSaveIds E L fs g = Inr (map (\<lambda>(g', s). NatNum s) (filter (\<lambda>(g', s). g' = g) hs))"
proof -
  have "list_all d_isFile (filter d_isFile ents)" by (simp add: list_all_iff)
  from saveIds_loop_history [OF this files ids g]
  have "saveIds_loop E g ents = map (\<lambda>(g', s). NatNum s) (filter (\<lambda>(g', s). g' = g) hs)"
    by (subst saveIds_loop_files)
  with rd show ?thesis by (simp add: getSaveIds_def)
qed

theorem getSaveIds_of_dash_free_ids_witness:
  "readdirSync demo_disk (historyFolder demo_store)
     = Inr [\<lparr>d_name = ''g1-00000.json'', d_isFile = True\<rparr>,
            \<lparr>d_name = ''g1-00001.json'', d_isFile = True\<rparr>,
            \<lparr>d_name = ''g5-00000.json'', d_isFile = True\<rparr>]
   \<and> getSaveIds demo_env demo_store demo_disk ''g1'' = Inr [NatNum 0, NatNum 1]"
proof -
  let ?ents = "[\<lparr>d_name = ''g1-00000.json'', d_isFile = True\<rparr>,
                \<lparr>d_name = ''g1-00001.json'', d_isFile = True\<rparr>,
                \<lparr>d_name = ''g5-00000.json'', d_isFile = True\<rparr>]"
  let ?hs = "[(''g1'', 0), (''g1'', 1), (''g5'', 0 :: nat)]"
  have rd: "readdirSync demo_disk (historyFolder demo_store) = Inr ?ents" by code_simp
  have files: "map d_name (filter d_isFile ?ents)
               = map (\<lambda>(g', s). g' @ ''-'' @ padStart 5 CHR ''0'' (nat_toString s) @ ''.json'') ?hs"
    by code_simp
  have ids: "\<forall>(g', s) \<in> set ?hs. CHR ''-'' \<notin> set g'" by simp
  have g: "CHR ''-'' \<notin> set ''g1''" by simp
  from getSaveIds_of_dash_free_ids [OF rd files ids g, of demo_env] rd
  show ?thesis by simp
qed

text \<open>
  Claim C4 as stated fails for the game id \<open>g1\<close> when the game \<open>g1-x\<close> has a history
  file: the only entry of the history folder is the file of \<open>(g1-x, 0)\<close>, and
  \<open>getSaveIds(g1)\<close> returns the save id 0.
\<close>

theorem getSaveIds_other_game_counterexample:
  "readdirSync prefix_disk (historyFolder demo_store)
     = Inr [\<lparr>d_name = ''g1-x-00000.json'', d_isFile = True\<rparr>]
   \<and> historyFilename (cwd prefix_disk) demo_store ''g1-x'' (NatNum 0)
       = ''/srv/db/history/g1-x-00000.json''
   \<and> getSaveIds demo_env demo_store prefix_disk ''g1'' = Inr [NatNum 0]"
  by code_simp

subsection \<open>The shape of a resolved path\<close>

lemma prepend_until_abs_acc: "prepend_until_abs ps acc = prepend_until_abs ps [] @ acc"
proof (induction ps arbitrary: acc)
  case Nil
  show ?case by simp
next
  case (Cons p ps)
  have a: "prepend_until_abs ps (p @ ''/'' @ acc) = prepend_until_abs ps [] @ p @ ''/'' @ acc"
    by (rule Cons.IH)
  have b: "prepend_until_abs ps (p @ ''/'') = prepend_until_abs ps [] @ p @ ''/''"
    by (rule Cons.IH)
  show ?case using Cons.IH [of acc] a b by simp
qed

lemma split_on_nonempty: "split_on c xs \<noteq> []"
  by (induction xs) (auto split: list.splits)

lemma split_on_free: "c \<notin> set ys \<Longrightarrow> split_on c ys = [ys]"
  by (induction ys) auto

lemma split_on_snoc_sep: "split_on c (xs @ [c]) = split_on c xs @ [[]]"
  by (induction xs) (auto simp: split_on_nonempty split: list.splits)

lemma split_on_append_free:
  "c \<notin> set ys \<Longrightarrow> split_on c (xs @ ys) = butlast (split_on c xs) @ [last (split_on c xs) @ ys]"
proof (induction xs)
  case Nil
  then show ?case by (simp add: split_on_free)
next
  case (Cons x xs)
  obtain s ss where S: "split_on c xs = s # ss"
    using split_on_nonempty [of c xs] by (cases "split_on c xs") auto
  from Cons S show ?case by (cases ss) auto
qed

lemma last_split_prepend: "last (split_on CHR ''/'' (prepend_until_abs ps [])) = []"
proof (induction ps)
  case Nil
  show ?case by simp
next
  case (Cons p ps)
  have "prepend_until_abs ps (p @ ''/'') = (prepend_until_abs ps [] @ p) @ ''/''"
    by (subst prepend_until_abs_acc) simp
  then have "last (split_on CHR ''/'' (prepend_until_abs ps (p @ ''/''))) = []"
    by (simp only: split_on_snoc_sep) simp
  moreover have "last (split_on CHR ''/'' (p @ ''/'')) = []"
    by (simp only: split_on_snoc_sep) simp
  ultimately show ?case using Cons by simp
qed

lemma normalize_append:
  "normalize acc (xs @ ys) = normalize (rev (normalize acc xs)) ys"
  by (induction xs arbitrary: acc) simp_all

lemma join_snoc: "join (N @ [u]) = (if N = [] then u else join N @ ''/'' @ u)"
  by (induction N rule: join.induct) simp_all


lemma normalize_last_segment:
  assumes "u \<noteq> []" "u \<noteq> ''.''" "u \<noteq> ''..''"
  shows "normalize [] (B @ [u, []]) = normalize [] B @ [u]"
  using assms by (simp add: normalize_append)

lemma resolve_shape:
  assumes X: "last (split_on CHR ''/'' X) = []"
  shows "\<exists>K. \<forall>u. CHR ''/'' \<notin> set u \<longrightarrow> 3 \<le> length u \<longrightarrow>
           ''/'' @ join (normalize [] (split_on CHR ''/'' (X @ u @ ''/''))) = K @ u"
proof -
  let ?B = "butlast (split_on CHR ''/'' X)"
  let ?N = "normalize [] ?B"
  let ?K = "''/'' @ (if ?N = [] then [] else join ?N @ ''/'')"
  have "\<forall>u. CHR ''/'' \<notin> set u \<longrightarrow> 3 \<le> length u \<longrightarrow>
           ''/'' @ join (normalize [] (split_on CHR ''/'' (X @ u @ ''/''))) = ?K @ u"
  proof (intro allI impI)
    fix u :: string assume u: "CHR ''/'' \<notin> set u" and len: "3 \<le> length u"
    have "split_on CHR ''/'' (X @ u @ ''/'') = split_on CHR ''/'' (X @ u) @ [[]]"
      using split_on_snoc_sep [of "CHR ''/''" "X @ u"] by simp
    also have "split_on CHR ''/'' (X @ u) = ?B @ [u]"
      using split_on_append_free [OF u, of X] X by simp
    finally have sp: "split_on CHR ''/'' (X @ u @ ''/'') = ?B @ [u, []]" by simp
    from len have "u \<noteq> []" "u \<noteq> ''.''" "u \<noteq> ''..''" by auto
    from normalize_last_segment [OF this]
    have "normalize [] (?B @ [u, []]) = ?N @ [u]" .
    with sp show "''/'' @ join (normalize [] (split_on CHR ''/'' (X @ u @ ''/''))) = ?K @ u"
      by (simp add: join_snoc)
  qed
  then show ?thesis ..
qed

lemma path_resolve_two:
  assumes "n \<noteq> []"
  shows "path_resolve wd [h, n]
         = ''/'' @ join (normalize [] (split_on CHR ''/''
                 ((if hd n = CHR ''/'' then [] else prepend_until_abs [h, wd] []) @ n @ ''/'')))"
proof -
  have "prepend_until_abs [h, wd] (n @ ''/'') = prepend_until_abs [h, wd] [] @ n @ ''/''"
    by (rule prepend_until_abs_acc)
  with assms show ?thesis by (simp add: path_resolve_def segments_def)
qed

lemma last_slash_decomposition:
  "\<exists>A l. g = A @ l \<and> CHR ''/'' \<notin> set l \<and> last (split_on CHR ''/'' A) = []"
proof (induction g rule: rev_induct)
  case Nil
  have "[] = [] @ ([] :: string) \<and> CHR ''/'' \<notin> set [] \<and> last (split_on CHR ''/'' []) = []" by simp
  then show ?case by blast
next
  case (snoc x g)
  show ?case
  proof (cases "x = CHR ''/''")
    case True
    have "g @ [x] = (g @ [x]) @ [] \<and> CHR ''/'' \<notin> set [] \<and> last (split_on CHR ''/'' (g @ [x])) = []"
      using True by (simp add: split_on_snoc_sep)
    then show ?thesis by blast
  next
    case False
    from snoc obtain A l where "g = A @ l" "CHR ''/'' \<notin> set l" "last (split_on CHR ''/'' A) = []"
      by blast
    with False have "g @ [x] = A @ (l @ [x]) \<and> CHR ''/'' \<notin> set (l @ [x])
        \<and> last (split_on CHR ''/'' A) = []" by simp
    then show ?thesis by blast
  qed
qed

lemma last_split_append:
  assumes "last (split_on CHR ''/'' P) = []" "last (split_on CHR ''/'' A) = []"
  shows "last (split_on CHR ''/'' (P @ A)) = []"
proof (cases A rule: rev_cases)
  case Nil
  with assms show ?thesis by simp
next
  case (snoc Q x)
  have "x = CHR ''/''"
  proof (rule ccontr)
    assume "x \<noteq> CHR ''/''"
    then have "CHR ''/'' \<notin> set [x]" by simp
    from split_on_append_free [OF this, of Q] have "last (split_on CHR ''/'' (Q @ [x])) \<noteq> []"
      by simp
    with assms(2) snoc show False by simp
  qed
  then have "P @ A = (P @ Q) @ ''/''" using snoc by simp
  then show ?thesis by (simp only: split_on_snoc_sep) simp
qed

lemma historyFilename_shape:
  "\<exists>C. \<forall>p. CHR ''/'' \<notin> set p \<longrightarrow>
         path_resolve wd [h, g @ ''-'' @ p @ ''.json''] = C @ ''-'' @ p @ ''.json''"
proof -
  let ?Pre = "if g \<noteq> [] \<and> hd g = CHR ''/'' then [] else prepend_until_abs [h, wd] []"
  from last_slash_decomposition [of g] obtain A l
    where g: "g = A @ l" and l: "CHR ''/'' \<notin> set l" and A: "last (split_on CHR ''/'' A) = []"
    by blast
  have P: "last (split_on CHR ''/'' ?Pre) = []"
  proof (cases "g \<noteq> [] \<and> hd g = CHR ''/''")
    case True
    then show ?thesis by simp
  next
    case False
    then show ?thesis by (simp only: if_False last_split_prepend)
  qed
  from resolve_shape [OF last_split_append [OF P A]] obtain K
    where K: "\<forall>u. CHR ''/'' \<notin> set u \<longrightarrow> 3 \<le> length u \<longrightarrow>
           ''/'' @ join (normalize [] (split_on CHR ''/'' ((?Pre @ A) @ u @ ''/''))) = K @ u"
    by blast
  have "\<forall>p. CHR ''/'' \<notin> set p \<longrightarrow>
         path_resolve wd [h, g @ ''-'' @ p @ ''.json''] = (K @ l) @ ''-'' @ p @ ''.json''"
  proof (intro allI impI)
    fix p :: string assume p: "CHR ''/'' \<notin> set p"
    let ?n = "g @ ''-'' @ p @ ''.json''"
    let ?u = "l @ ''-'' @ p @ ''.json''"
    have hd: "(hd ?n = CHR ''/'') = (g \<noteq> [] \<and> hd g = CHR ''/'')" by (cases g) simp_all
    have u: "CHR ''/'' \<notin> set ?u" "3 \<le> length ?u" using l p by simp_all
    have ne: "?n \<noteq> []" by simp
    have "path_resolve wd [h, ?n]
          = ''/'' @ join (normalize [] (split_on CHR ''/'' (?Pre @ ?n @ ''/'')))"
      unfolding path_resolve_two [OF ne] hd ..
    also have "?Pre @ ?n @ ''/'' = (?Pre @ A) @ ?u @ ''/''" by (simp add: g)
    also have "''/'' @ join (normalize [] (split_on CHR ''/'' ((?Pre @ A) @ ?u @ ''/''))) = K @ ?u"
      using K [rule_format, OF u] .
    finally show "path_resolve wd [h, ?n] = (K @ l) @ ''-'' @ p @ ''.json''" by simp
  qed
  then show ?thesis by (rule exI [of _ "K @ l"])
qed

lemma historyFilename_shape_simple:
  "\<exists>K. \<forall>g p. CHR ''/'' \<notin> set g \<longrightarrow> CHR ''/'' \<notin> set p \<longrightarrow>
         path_resolve wd [h, g @ ''-'' @ p @ ''.json''] = K @ g @ ''-'' @ p @ ''.json''"
proof -
  let ?Pre = "prepend_until_abs [h, wd] []"
  have P: "last (split_on CHR ''/'' ?Pre) = []" by (rule last_split_prepend)
  from resolve_shape [OF P] obtain K
    where K: "\<forall>u. CHR ''/'' \<notin> set u \<longrightarrow> 3 \<le> length u \<longrightarrow>
           ''/'' @ join (normalize [] (split_on CHR ''/'' (?Pre @ u @ ''/''))) = K @ u"
    by blast
  have "\<forall>g p. CHR ''/'' \<notin> set g \<longrightarrow> CHR ''/'' \<notin> set p \<longrightarrow>
         path_resolve wd [h, g @ ''-'' @ p @ ''.json''] = K @ g @ ''-'' @ p @ ''.json''"
  proof (intro allI impI)
    fix g p :: string assume g: "CHR ''/'' \<notin> set g" and p: "CHR ''/'' \<notin> set p"
    let ?n = "g @ ''-'' @ p @ ''.json''"
    have hd: "hd ?n \<noteq> CHR ''/''" using g by (cases g) auto
    have u: "CHR ''/'' \<notin> set ?n" "3 \<le> length ?n" using g p by simp_all
    have ne: "?n \<noteq> []" by simp
    have "path_resolve wd [h, ?n]
          = ''/'' @ join (normalize [] (split_on CHR ''/'' (?Pre @ ?n @ ''/'')))"
      unfolding path_resolve_two [OF ne] using hd by simp
    also have "\<dots> = K @ ?n" using K [rule_format, OF u] .
    finally show "path_resolve wd [h, ?n] = K @ g @ ''-'' @ p @ ''.json''" .
  qed
  then show ?thesis by (rule exI [of _ K])
qed


subsection \<open>Comparing padded save ids\<close>

lemma str_less_irrefl: "\<not> str_less z z"
  by (induction z) simp_all

lemma str_less_same_prefix: "str_less (C @ x) (C @ y) = str_less x y"
  by (induction C) simp_all

lemma str_less_same_suffix:
  "length x = length y \<Longrightarrow> str_less (x @ z) (y @ z) = str_less x y"
  by (induction x y rule: list_induct2) (simp_all add: str_less_irrefl)

lemma foldl_decimal_mono:
  assumes "length x = length y" "list_all is_digit x" "list_all is_digit y" "a < b"
  shows "foldl (\<lambda>a c. 10 * a + digit_val c) a x < foldl (\<lambda>a c. 10 * a + digit_val c) b y"
  using assms
proof (induction x y arbitrary: a b rule: list_induct2)
  case Nil
  then show ?case by simp
next
  case (Cons c x d y)
  from Cons.prems have "digit_val c < 10" by (simp add: is_digit_code)
  with Cons.prems(3) have "10 * a + digit_val c < 10 * b + digit_val d" by arith
  with Cons show ?case by simp
qed

lemma str_less_digits:
  assumes "length x = length y" "list_all is_digit x" "list_all is_digit y"
  shows "str_less x y
         \<longleftrightarrow> foldl (\<lambda>a c. 10 * a + digit_val c) a x < foldl (\<lambda>a c. 10 * a + digit_val c) a y"
  using assms
proof (induction x y arbitrary: a rule: list_induct2)
  case Nil
  then show ?case by simp
next
  case (Cons c x d y)
  from Cons.prems have dc: "is_digit c" and dd: "is_digit d"
    and dx: "list_all is_digit x" and dy: "list_all is_digit y" by simp_all
  show ?case
  proof (cases "c = d")
    case True
    with Cons.IH [OF dx dy] show ?thesis by simp
  next
    case False
    from is_digit_code [OF dc] is_digit_code [OF dd] False
    have ne: "digit_val c \<noteq> digit_val d"
      and lt: "((of_char c :: nat) < of_char d) = (digit_val c < digit_val d)"
      by (auto simp: of_char_eq_iff [symmetric, where ?'a = nat] simp del: of_char_eq_iff)
    show ?thesis
    proof (cases "digit_val c < digit_val d")
      case True
      then have "10 * a + digit_val c < 10 * a + digit_val d" by simp
      from foldl_decimal_mono [OF Cons.hyps dx dy this] True lt False show ?thesis by simp
    next
      case F: False
      with ne have "10 * a + digit_val d < 10 * a + digit_val c" by simp
      from foldl_decimal_mono [OF Cons.hyps [symmetric] dy dx this] F lt False
      show ?thesis by simp
    qed
  qed
qed

lemma length_nat_toString: "0 < k \<Longrightarrow> n < 10 ^ k \<Longrightarrow> length (nat_toString n) \<le> k"
proof (induction k arbitrary: n)
  case 0
  then show ?case by simp
next
  case (Suc k)
  show ?case
  proof (cases "n < 10")
    case True
    then show ?thesis by (subst nat_toString.simps) simp
  next
    case False
    with Suc.prems have k: "0 < k" by (cases k) auto
    from Suc.prems have "n div 10 < 10 ^ k" by (simp add: less_mult_imp_div_less mult.commute)
    from Suc.IH [OF k this] False show ?thesis by (subst nat_toString.simps) simp
  qed
qed

lemma length_padded: "n < 100000 \<Longrightarrow> length (padStart 5 CHR ''0'' (nat_toString n)) = 5"
  using length_nat_toString [of 5 n] by (simp add: padStart_def)

lemma padded_less:
  assumes "a < b" "b < 100000"
  shows "str_less (padStart 5 CHR ''0'' (nat_toString a)) (padStart 5 CHR ''0'' (nat_toString b))"
proof -
  let ?x = "padStart 5 CHR ''0'' (nat_toString a)" and ?y = "padStart 5 CHR ''0'' (nat_toString b)"
  from assms have len: "length ?x = length ?y" by (simp add: length_padded)
  from str_less_digits [OF len padded_digits padded_digits, of 0]
  have "str_less ?x ?y \<longleftrightarrow> decimal ?x < decimal ?y" by (simp add: decimal_def)
  with assms(1) show ?thesis by (simp add: decimal_padded)
qed

lemma padded_inj:
  assumes "padStart 5 CHR ''0'' (nat_toString a) = padStart 5 CHR ''0'' (nat_toString b)"
  shows "a = b"
proof -
  have "a = decimal (padStart 5 CHR ''0'' (nat_toString a))" by (simp only: decimal_padded)
  also have "\<dots> = decimal (padStart 5 CHR ''0'' (nat_toString b))" by (simp only: assms)
  also have "\<dots> = b" by (simp only: decimal_padded)
  finally show ?thesis .
qed

lemma padded_no_sep:
  "CHR ''/'' \<notin> set (padStart 5 CHR ''0'' (nat_toString n))"
  "CHR ''-'' \<notin> set (padStart 5 CHR ''0'' (nat_toString n))"
  using padded_digits [of 5 n] by (auto simp: list_all_iff dest: is_digit_not_sep)

lemma first_sep_unique:
  "c \<notin> set xs \<Longrightarrow> c \<notin> set ys \<Longrightarrow> xs @ c # a = ys @ c # b \<Longrightarrow> xs = ys \<and> a = b"
proof (induction xs arbitrary: ys)
  case Nil
  then show ?case by (cases ys) auto
next
  case (Cons x xs)
  then show ?case by (cases ys) auto
qed

lemma last_sep_unique:
  assumes "c \<notin> set p" "c \<notin> set q" "g @ c # p = h @ c # q"
  shows "g = h \<and> p = q"
proof -
  from assms(3) have "rev (g @ c # p) = rev (h @ c # q)" by (rule arg_cong)
  then have "rev p @ c # rev g = rev q @ c # rev h" by simp
  moreover from assms have "c \<notin> set (rev p)" "c \<notin> set (rev q)" by simp_all
  ultimately have "rev p = rev q \<and> rev g = rev h" by (intro first_sep_unique)
  then show ?thesis by simp
qed

subsection \<open>\<open>historyFilename\<close>\<close>

text \<open>
  Claim C7, as the code has it. The path of a history file is a prefix that depends on
  the game id only, then \<open>-\<close>, the save id padded with zeros to five digits (exactly five
  for a save id below 100000) and \<open>.json\<close>. Two save ids of one game never have the same
  path; two pairs of a game id and a save id whose game ids contain no \<open>/\<close> have the same
  path only if they are the same pair; and for save ids \<open>a < b\<close> below 100000 the path of
  \<open>(g, a)\<close> is lexicographically smaller than the path of \<open>(g, b)\<close>.
\<close>

theorem historyFilename_unique_and_ordered:
  "(\<exists>C. \<forall>s. historyFilename wd L g (NatNum s)
             = C @ ''-'' @ padStart 5 CHR ''0'' (nat_toString s) @ ''.json''
           \<and> (s < 100000 \<longrightarrow> length (padStart 5 CHR ''0'' (nat_toString s)) = 5))
   \<and> (historyFilename wd L g (NatNum s1) = historyFilename wd L g (NatNum s2) \<longleftrightarrow> s1 = s2)
   \<and> (CHR ''/'' \<notin> set g1 \<longrightarrow> CHR ''/'' \<notin> set g2 \<longrightarrow>
        (historyFilename wd L g1 (NatNum s1) = historyFilename wd L g2 (NatNum s2)
           \<longleftrightarrow> g1 = g2 \<and> s1 = s2))
   \<and> (a < b \<longrightarrow> b < 100000 \<longrightarrow>
        str_less (historyFilename wd L g (NatNum a)) (historyFilename wd L g (NatNum b)))"
proof -
  let ?pad = "\<lambda>s. padStart 5 CHR ''0'' (nat_toString s)"
  from historyFilename_shape [of wd "historyFolder L" g] obtain C
    where "\<forall>p. CHR ''/'' \<notin> set p \<longrightarrow>
         path_resolve wd [historyFolder L, g @ ''-'' @ p @ ''.json''] = C @ ''-'' @ p @ ''.json''"
    by blast
  then have C: "\<And>s. historyFilename wd L g (NatNum s) = C @ ''-'' @ ?pad s @ ''.json''"
    by (simp add: historyFilename_def padded_no_sep)
  from historyFilename_shape_simple [of wd "historyFolder L"] obtain K
    where "\<forall>g p. CHR ''/'' \<notin> set g \<longrightarrow> CHR ''/'' \<notin> set p \<longrightarrow>
         path_resolve wd [historyFolder L, g @ ''-'' @ p @ ''.json'']
         = K @ g @ ''-'' @ p @ ''.json''"
    by blast
  then have K: "\<And>g s. CHR ''/'' \<notin> set g \<Longrightarrow>
      historyFilename wd L g (NatNum s) = K @ g @ ''-'' @ ?pad s @ ''.json''"
    by (simp add: historyFilename_def padded_no_sep)
  have "\<forall>s. historyFilename wd L g (NatNum s) = C @ ''-'' @ ?pad s @ ''.json''
           \<and> (s < 100000 \<longrightarrow> length (?pad s) = 5)"
    by (simp add: C length_padded)
  then have 1: "\<exists>C. \<forall>s. historyFilename wd L g (NatNum s) = C @ ''-'' @ ?pad s @ ''.json''
           \<and> (s < 100000 \<longrightarrow> length (?pad s) = 5)"
    by (rule exI [of _ C])
  have 2: "historyFilename wd L g (NatNum s1) = historyFilename wd L g (NatNum s2) \<longleftrightarrow> s1 = s2"
    by (auto simp: C dest: padded_inj)
  have 3: "CHR ''/'' \<notin> set g1 \<longrightarrow> CHR ''/'' \<notin> set g2 \<longrightarrow>
        (historyFilename wd L g1 (NatNum s1) = historyFilename wd L g2 (NatNum s2)
           \<longleftrightarrow> g1 = g2 \<and> s1 = s2)"
  proof (intro impI)
    assume g1: "CHR ''/'' \<notin> set g1" and g2: "CHR ''/'' \<notin> set g2"
    have "g1 @ CHR ''-'' # ?pad s1 = g2 @ CHR ''-'' # ?pad s2 \<longleftrightarrow> g1 = g2 \<and> ?pad s1 = ?pad s2"
      using last_sep_unique [of "CHR ''-''" "?pad s1" "?pad s2" g1 g2,
                             OF padded_no_sep(2) padded_no_sep(2)] by blast
    then show "historyFilename wd L g1 (NatNum s1) = historyFilename wd L g2 (NatNum s2)
           \<longleftrightarrow> g1 = g2 \<and> s1 = s2"
      by (auto simp: K [OF g1] K [OF g2] dest: padded_inj)
  qed
  have 4: "a < b \<longrightarrow> b < 100000 \<longrightarrow>
        str_less (historyFilename wd L g (NatNum a)) (historyFilename wd L g (NatNum b))"
  proof (intro impI)
    assume ab: "a < b" "b < 100000"
    then have len: "length (?pad a) = length (?pad b)" by (simp add: length_padded)
    have "str_less (C @ ''-'' @ ?pad a @ ''.json'') (C @ ''-'' @ ?pad b @ ''.json'')
          = str_less (?pad a @ ''.json'') (?pad b @ ''.json'')"
      unfolding str_less_same_prefix by simp
    also have "\<dots> = str_less (?pad a) (?pad b)" by (rule str_less_same_suffix [OF len])
    finally show "str_less (historyFilename wd L g (NatNum a)) (historyFilename wd L g (NatNum b))"
      using padded_less [OF ab] by (simp add: C)
  qed
  from 1 2 3 4 show ?thesis by (intro conjI)
qed

theorem historyFilename_unique_and_ordered_witness:
  "CHR ''/'' \<notin> set ''g1'' \<and> CHR ''/'' \<notin> set ''g12'' \<and> (9 :: nat) < 10 \<and> (10 :: nat) < 100000
   \<and> historyFilename ''/srv'' demo_store ''g1'' (NatNum 3)
       \<noteq> historyFilename ''/srv'' demo_store ''g12'' (NatNum 3)
   \<and> historyFilename ''/srv'' demo_store ''g1'' (NatNum 3)
       \<noteq> historyFilename ''/srv'' demo_store ''g1'' (NatNum 4)
   \<and> str_less (historyFilename ''/srv'' demo_store ''g1'' (NatNum 9))
               (historyFilename ''/srv'' demo_store ''g1'' (NatNum 10))"
proof -
  from historyFilename_unique_and_ordered
         [of "''/srv''" demo_store "''g1''" 3 3 "''g1''" "''g12''" 9 10]
  have 1: "historyFilename ''/srv'' demo_store ''g1'' (NatNum 3)
           \<noteq> historyFilename ''/srv'' demo_store ''g12'' (NatNum 3)"
    and 2: "str_less (historyFilename ''/srv'' demo_store ''g1'' (NatNum 9))
                     (historyFilename ''/srv'' demo_store ''g1'' (NatNum 10))"
    by simp_all
  from historyFilename_unique_and_ordered
         [of "''/srv''" demo_store "''g1''" 3 4 "''g1''" "''g1''" 9 10]
  have 3: "historyFilename ''/srv'' demo_store ''g1'' (NatNum 3)
           \<noteq> historyFilename ''/srv'' demo_store ''g1'' (NatNum 4)"
    by simp
  from 1 2 3 show ?thesis by simp
qed

text \<open>
  Claim C7 as stated fails twice. The game ids \<open>g1/../g2\<close> and \<open>g2\<close> have the same
  history path at save id 0, since \<open>path.resolve\<close> normalises the path; and the path of
  \<open>(g, 99999)\<close> is not smaller than the path of \<open>(g, 100000)\<close>, whose save id has six
  digits.
\<close>

theorem historyFilename_collision_and_order_counterexample:
  "historyFilename ''/srv'' demo_store ''g1/../g2'' (NatNum 0)
     = historyFilename ''/srv'' demo_store ''g2'' (NatNum 0)
   \<and> (99999 :: nat) < 100000
   \<and> \<not> str_less (historyFilename ''/srv'' demo_store ''g'' (NatNum 99999))
                 (historyFilename ''/srv'' demo_store ''g'' (NatNum 100000))"
proof -
  have a: "historyFilename ''/srv'' demo_store ''g1/../g2'' (NatNum 0)
           = historyFilename ''/srv'' demo_store ''g2'' (NatNum 0)" by code_simp
  have p: "padStart 5 CHR ''0'' (nat_toString 99999) = ''99999''"
    "padStart 5 CHR ''0'' (nat_toString 100000) = ''100000''"
    by (simp_all add: nat_toString.simps digit_char_def padStart_def)
  have r1: "path_resolve ''/srv'' [historyFolder demo_store, ''g-99999.json'']
           = ''/srv/db/history/g-99999.json''" by code_simp
  have r2: "path_resolve ''/srv'' [historyFolder demo_store, ''g-100000.json'']
           = ''/srv/db/history/g-100000.json''" by code_simp
  have h: "historyFilename ''/srv'' demo_store ''g'' (NatNum 99999) = ''/srv/db/history/g-99999.json''"
    "historyFilename ''/srv'' demo_store ''g'' (NatNum 100000) = ''/srv/db/history/g-100000.json''"
    using p r1 r2 by (simp_all add: historyFilename_def)
  show ?thesis unfolding h using a by simp
qed


end
